(* ===== verification/Prelude.thy ===== *)
theory Prelude
  imports Main
begin

text \<open>
  Shared vocabulary of the development. The identifiers the program hands out
  (MongoDB ObjectIds, express-session ids) are modelled as natural numbers drawn
  from counters, since the only property the code relies on is that a new one is
  fresh. The password hashing function (pbkdf2 in passport-local-mongoose) is a
  parameter \<open>kdf salt password\<close> of every operation that hashes. All the errors the
  program and its libraries report form one datatype, so that every failure of
  the source is a value \<open>Inl e\<close> of the model. The prelude also holds the
  list lemmas on unique keys that the store, the session and the application
  theories share.
\<close>

type_synonym oid = nat
type_synonym sid = nat
type_synonym kdf = "string \<Rightarrow> string \<Rightarrow> string"

datatype error =
    DuplicateKey
  | MissingUsernameError
  | MissingPasswordError
  | UserExistsError
  | IncorrectUsernameError
  | IncorrectPasswordError
  | NoSaltValueStoredError
  | HashFieldMissing

named_theorems store_eqs "characteristic equations of the document-store operations"
named_theorems route_eqs "characteristic equations of the request handlers"

subsection \<open>Lists with a unique key\<close>

lemma find_SomeD:
  "find P xs = Some x \<Longrightarrow> x \<in> set xs \<and> P x"
  by (induction xs) (auto split: if_splits)

lemma find_snoc:
  "find P (xs @ [y]) = (case find P xs of None \<Rightarrow> (if P y then Some y else None) | Some x \<Rightarrow> Some x)"
  by (induction xs) auto

lemma find_key_unique:
  assumes "distinct (map f xs)" and "x \<in> set xs" and "f x = k"
  shows "find (\<lambda>u. f u = k) xs = Some x"
  using assms
proof (induction xs)
  case Nil
  then show ?case by simp
next
  case (Cons y ys)
  then show ?case by (cases "y = x") (auto simp: image_iff)
qed

lemma distinct_map_filter_le1:
  "distinct (map f xs) \<Longrightarrow> length (filter (\<lambda>x. f x = v) xs) \<le> 1"
proof (induction xs)
  case Nil
  then show ?case by simp
next
  case (Cons y ys)
  then have "f y = v \<Longrightarrow> filter (\<lambda>x. f x = v) ys = []"
    by (auto simp: filter_empty_conv image_iff)
  with Cons show ?case by auto
qed

lemma distinct_map_filter_eq1:
  "distinct (map f xs) \<Longrightarrow> x \<in> set xs \<Longrightarrow> length (filter (\<lambda>y. f y = f x) xs) = 1"
proof -
  assume d: "distinct (map f xs)" and x: "x \<in> set xs"
  have "length (filter (\<lambda>y. f y = f x) xs) \<le> 1" using d by (rule distinct_map_filter_le1)
  moreover have "filter (\<lambda>y. f y = f x) xs \<noteq> []" using x by (auto simp: filter_empty_conv)
  ultimately show ?thesis by (cases "filter (\<lambda>y. f y = f x) xs") auto
qed

lemma length_filter_mono_on:
  "(\<And>x. x \<in> set xs \<Longrightarrow> P x \<Longrightarrow> Q x) \<Longrightarrow> length (filter P xs) \<le> length (filter Q xs)"
  by (induction xs) auto

text \<open>A list whose every element misses one of two keys, each key unique, has at most two elements.\<close>

lemma two_unique_nulls:
  assumes "distinct (map f xs)" and "distinct (map g xs)" and "\<And>x. x \<in> set xs \<Longrightarrow> f x = a \<or> g x = b"
  shows "length xs \<le> 2"
proof -
  have "length (filter (\<lambda>x. f x \<noteq> a) xs) \<le> length (filter (\<lambda>x. g x = b) xs)"
    using assms(3) by (intro length_filter_mono_on) blast
  also have "\<dots> \<le> 1" using assms(2) by (rule distinct_map_filter_le1)
  finally have "length (filter (\<lambda>x. f x \<noteq> a) xs) \<le> 1" .
  moreover have "length (filter (\<lambda>x. f x = a) xs) \<le> 1" using assms(1) by (rule distinct_map_filter_le1)
  moreover have "length (filter (\<lambda>x. f x = a) xs) + length (filter (\<lambda>x. \<not> f x = a) xs) = length xs"
    by (rule sum_length_filter_compl)
  ultimately show ?thesis by simp
qed

lemma distinct_map_snoc [simp]:
  "distinct (map f (xs @ [x])) \<longleftrightarrow> distinct (map f xs) \<and> f x \<notin> f ` set xs"
  by auto

end
