(* ===== verification/Store.thy ===== *)
theory Store
  imports Prelude
begin

text \<open>
  The user store: the MongoDB collection \<open>users\<close> behind the mongoose model
  \<open>User\<close> of src/app.js (lines 31--49), with the fields that the two plugins
  add (passport-local-mongoose: \<open>salt\<close> and \<open>hash\<close>). The collection is a list of
  documents in insertion order, so that \<open>findOne\<close> returns the first match.
  The schema declares \<open>googleId\<close> and \<open>username\<close> with \<open>unique: true\<close>; mongoose
  builds non-sparse unique indexes from them, and MongoDB indexes a missing
  field as \<open>null\<close>. A missing field is \<open>None\<close> here and takes part in the
  uniqueness check like any other value, so that at most one document may lack
  each of the two fields. \<open>find_or_create\<close> is mongoose-findorcreate's
  \<open>findOrCreate\<close>: a \<open>findOne\<close> followed by a separate \<open>save\<close>.
\<close>

record user =
  uid :: oid
  username :: "string option"
  googleId :: "string option"
  password :: "string option"
  salt :: "string option"
  hash :: "string option"

record db_state =
  users :: "user list"
  next_oid :: oid

definition empty_doc :: "oid \<Rightarrow> user" where
  "empty_doc i = \<lparr>uid = i, username = None, googleId = None, password = None,
     salt = None, hash = None\<rparr>"

definition init_db :: db_state where
  "init_db = \<lparr>users = [], next_oid = 0\<rparr>"

text \<open>\<open>new User(...)\<close> draws a fresh ObjectId whether or not the document is saved.\<close>

definition new_oid :: "db_state \<Rightarrow> oid \<times> db_state" where
  "new_oid d = (next_oid d, d\<lparr>next_oid := Suc (next_oid d)\<rparr>)"

definition find_one :: "(user \<Rightarrow> bool) \<Rightarrow> db_state \<Rightarrow> user option" where
  "find_one P d = find P (users d)"

text \<open>passport-local-mongoose \<open>findByUsername\<close>: exact match, case sensitive.\<close>

definition find_by_username :: "string \<Rightarrow> db_state \<Rightarrow> user option" where
  "find_by_username n d = find_one (\<lambda>u. username u = Some n) d"

definition find_by_googleId :: "string \<Rightarrow> db_state \<Rightarrow> user option" where
  "find_by_googleId g d = find_one (\<lambda>u. googleId u = Some g) d"

text \<open>The three unique indexes of the collection: \<open>_id\<close>, \<open>googleId_1\<close>, \<open>username_1\<close>.\<close>

definition unique_ok :: "user list \<Rightarrow> user \<Rightarrow> bool" where
  "unique_ok us u \<longleftrightarrow>
     uid u \<notin> uid ` set us \<and> googleId u \<notin> googleId ` set us \<and> username u \<notin> username ` set us"

text \<open>\<open>doc.save()\<close> of a new document: an insert, refused with E11000 on a duplicate key.\<close>

definition save_doc :: "user \<Rightarrow> db_state \<Rightarrow> error + db_state" where
  "save_doc u d =
     (if unique_ok (users d) u then Inr (d\<lparr>users := users d @ [u]\<rparr>) else Inl DuplicateKey)"

text \<open>
  \<open>User.findOrCreate({googleId: g}, cb)\<close>. On a miss the plugin builds the new
  document from the conditions, after deleting every condition whose JSON text
  contains a \<open>$\<close> (meant for query operators); a provider id with a \<open>$\<close> in it is
  therefore dropped and the document is created without \<open>googleId\<close>.
\<close>

definition foc_conditions :: "string \<Rightarrow> oid \<Rightarrow> user" where
  "foc_conditions g i =
     (if CHR ''$'' \<in> set g then empty_doc i else (empty_doc i)\<lparr>googleId := Some g\<rparr>)"

definition find_or_create :: "string \<Rightarrow> db_state \<Rightarrow> (error + user) \<times> db_state" where
  "find_or_create g d =
     (case find_by_googleId g d of
        Some u \<Rightarrow> (Inr u, d)
      | None \<Rightarrow>
          (let (i, d1) = new_oid d; u = foc_conditions g i
           in (case save_doc u d1 of Inl e \<Rightarrow> (Inl e, d1) | Inr d2 \<Rightarrow> (Inr u, d2))))"

subsection \<open>The store invariant\<close>

text \<open>
  The unique indexes hold (with \<open>null\<close> counted as a value), and every stored
  ObjectId was drawn before the counter's current value.
\<close>

definition db_wf :: "db_state \<Rightarrow> bool" where
  "db_wf d \<longleftrightarrow>
     distinct (map uid (users d)) \<and> distinct (map googleId (users d)) \<and>
     distinct (map username (users d)) \<and> (\<forall>u \<in> set (users d). uid u < next_oid d)"

text \<open>
  How the store changes: documents are only appended, with ObjectIds drawn at
  or after the counter's value, and the counter never goes back.
\<close>

definition db_grows :: "db_state \<Rightarrow> db_state \<Rightarrow> bool" where
  "db_grows d d' \<longleftrightarrow>
     next_oid d \<le> next_oid d' \<and> (\<exists>new. users d' = users d @ new \<and> (\<forall>u \<in> set new. next_oid d \<le> uid u))"

text \<open>
  Every document misses one of the two indexed fields: a local account has no
  \<open>googleId\<close>, a Google account no \<open>username\<close>.
\<close>

definition key_missing :: "db_state \<Rightarrow> bool" where
  "key_missing d \<longleftrightarrow> (\<forall>u \<in> set (users d). googleId u = None \<or> username u = None)"

lemma db_wf_init: "db_wf init_db"
  by (simp add: db_wf_def init_db_def)

lemma new_oid_eq [store_eqs]:
  "new_oid d = (next_oid d, d\<lparr>next_oid := Suc (next_oid d)\<rparr>)"
  by (simp add: new_oid_def)

lemma new_oid_wf: "db_wf d \<Longrightarrow> db_wf (snd (new_oid d))"
  by (auto simp: db_wf_def new_oid_def)

lemma save_doc_wf:
  assumes "db_wf d" and "save_doc u d = Inr d'" and "uid u < next_oid d"
  shows "db_wf d'"
  using assms by (auto simp: db_wf_def save_doc_def unique_ok_def split: if_splits)

lemma save_doc_Inr [store_eqs]:
  "save_doc u d = Inr d' \<longleftrightarrow> unique_ok (users d) u \<and> d' = d\<lparr>users := users d @ [u]\<rparr>"
  by (auto simp: save_doc_def)

lemma save_doc_Inl [store_eqs]:
  "save_doc u d = Inl e \<longleftrightarrow> \<not> unique_ok (users d) u \<and> e = DuplicateKey"
  by (auto simp: save_doc_def)

lemma find_by_googleId_SomeD:
  "find_by_googleId g d = Some u \<Longrightarrow> u \<in> set (users d) \<and> googleId u = Some g"
  by (auto simp: find_by_googleId_def find_one_def dest: find_SomeD)

lemma find_by_username_SomeD:
  "find_by_username n d = Some u \<Longrightarrow> u \<in> set (users d) \<and> username u = Some n"
  by (auto simp: find_by_username_def find_one_def dest: find_SomeD)

lemma find_by_username_None:
  "find_by_username n d = None \<longleftrightarrow> (\<forall>u \<in> set (users d). username u \<noteq> Some n)"
  by (auto simp: find_by_username_def find_one_def find_None_iff)

lemma find_by_googleId_None:
  "find_by_googleId g d = None \<longleftrightarrow> (\<forall>u \<in> set (users d). googleId u \<noteq> Some g)"
  by (auto simp: find_by_googleId_def find_one_def find_None_iff)

lemma find_by_username_member:
  "db_wf d \<Longrightarrow> u \<in> set (users d) \<Longrightarrow> username u = Some n \<Longrightarrow> find_by_username n d = Some u"
  unfolding db_wf_def find_by_username_def find_one_def
  by (rule find_key_unique) auto

lemma find_by_googleId_member:
  "db_wf d \<Longrightarrow> u \<in> set (users d) \<Longrightarrow> googleId u = Some g \<Longrightarrow> find_by_googleId g d = Some u"
  unfolding db_wf_def find_by_googleId_def find_one_def
  by (rule find_key_unique) auto

lemma find_or_create_wf:
  assumes "db_wf d"
  shows "db_wf (snd (find_or_create g d))"
proof (cases "find_by_googleId g d")
  case None
  let ?u = "foc_conditions g (next_oid d)"
  let ?d1 = "d\<lparr>next_oid := Suc (next_oid d)\<rparr>"
  have d1: "db_wf ?d1" using new_oid_wf [OF assms] by (simp add: new_oid_def)
  have "uid ?u < next_oid ?d1" by (simp add: foc_conditions_def empty_doc_def)
  with d1 show ?thesis using None
    by (cases "save_doc ?u ?d1")
      (auto simp: find_or_create_def new_oid_def Let_def intro: save_doc_wf)
next
  case (Some u)
  with assms show ?thesis by (simp add: find_or_create_def)
qed

text \<open>
  A second call with the same provider id finds the document the first call
  returned and changes nothing; the store then holds exactly one document with
  that id.
\<close>

lemma find_or_create_again:
  assumes "db_wf d" and "CHR ''$'' \<notin> set g" and "find_or_create g d = (Inr u, d')"
  shows "googleId u = Some g \<and> u \<in> set (users d') \<and> find_or_create g d' = (Inr u, d') \<and>
         length (filter (\<lambda>v. googleId v = Some g) (users d')) = 1"
proof -
  have wf': "db_wf d'" using find_or_create_wf [OF assms(1), of g] assms(3) by simp
  have mem: "googleId u = Some g \<and> u \<in> set (users d')"
  proof (cases "find_by_googleId g d")
    case None
    with assms(2,3) show ?thesis
      by (auto simp: find_or_create_def new_oid_def foc_conditions_def save_doc_def Let_def
          split: if_splits)
  next
    case (Some v)
    with assms(3) show ?thesis by (auto simp: find_or_create_def dest: find_by_googleId_SomeD)
  qed
  then have "find_by_googleId g d' = Some u" using wf' by (auto intro: find_by_googleId_member)
  then have "find_or_create g d' = (Inr u, d')" by (simp add: find_or_create_def)
  moreover have "length (filter (\<lambda>v. googleId v = Some g) (users d')) = 1"
    using distinct_map_filter_eq1 [of googleId "users d'" u] wf' mem by (simp add: db_wf_def)
  ultimately show ?thesis using mem by simp
qed

text \<open>
  A new provider id cannot be stored once a document without \<open>username\<close>
  exists: the created document has no username either.
\<close>

lemma find_or_create_null_username:
  assumes "v \<in> set (users d)" and "username v = None" and "find_by_googleId g d = None"
  shows "find_or_create g d = (Inl DuplicateKey, d\<lparr>next_oid := Suc (next_oid d)\<rparr>)"
proof -
  have "username (foc_conditions g (next_oid d)) \<in> username ` set (users d)"
    using assms(1,2) by (force simp: foc_conditions_def empty_doc_def)
  with assms(3) show ?thesis
    by (simp add: find_or_create_def new_oid_def save_doc_def unique_ok_def Let_def)
qed

subsection \<open>The store only grows\<close>

lemma db_grows_refl [simp]: "db_grows d d"
  by (auto simp: db_grows_def)

lemma db_grows_trans:
  assumes "db_grows d1 d2" and "db_grows d2 d3"
  shows "db_grows d1 d3"
proof -
  from assms(1) obtain n1 where a: "next_oid d1 \<le> next_oid d2" "users d2 = users d1 @ n1"
    "\<forall>u \<in> set n1. next_oid d1 \<le> uid u" by (auto simp: db_grows_def)
  from assms(2) obtain n2 where b: "next_oid d2 \<le> next_oid d3" "users d3 = users d2 @ n2"
    "\<forall>u \<in> set n2. next_oid d2 \<le> uid u" by (auto simp: db_grows_def)
  have "\<forall>u \<in> set (n1 @ n2). next_oid d1 \<le> uid u" using a(1,3) b(3) by (auto intro: le_trans)
  with a b show ?thesis unfolding db_grows_def by auto
qed

lemma new_oid_grows: "db_grows d (snd (new_oid d))"
  by (auto simp: db_grows_def new_oid_def)

lemma find_or_create_grows: "db_grows d (snd (find_or_create g d))"
  by (auto simp: find_or_create_def new_oid_def save_doc_def db_grows_def foc_conditions_def empty_doc_def
      Let_def split: option.splits sum.splits if_splits)

lemma find_or_create_member: "find_or_create g d = (Inr u, d') \<Longrightarrow> u \<in> set (users d')"
  by (auto simp: find_or_create_def new_oid_def save_doc_def Let_def split: option.splits if_splits
      dest: find_by_googleId_SomeD)

subsection \<open>At most two documents\<close>

lemma key_missing_init: "key_missing init_db"
  by (simp add: key_missing_def init_db_def)

lemma new_oid_key_missing: "key_missing d \<Longrightarrow> key_missing (snd (new_oid d))"
  by (simp add: key_missing_def new_oid_def)

lemma find_or_create_key_missing: "key_missing d \<Longrightarrow> key_missing (snd (find_or_create g d))"
  by (auto simp: key_missing_def find_or_create_def new_oid_def save_doc_def foc_conditions_def
      empty_doc_def Let_def split: option.splits if_splits)

text \<open>With the null entries unique, the two kinds of account allow two documents in all.\<close>

lemma key_missing_length:
  assumes "db_wf d" and "key_missing d"
  shows "length (users d) \<le> 2"
proof (rule two_unique_nulls [of googleId "users d" username None None])
  show "distinct (map googleId (users d))" and "distinct (map username (users d))"
    using assms(1) by (simp_all add: db_wf_def)
  show "googleId x = None \<or> username x = None" if "x \<in> set (users d)" for x
    using assms(2) that by (simp add: key_missing_def)
qed

subsection \<open>Provider ids with a dollar sign\<close>

text \<open>
  A provider id containing \<open>$\<close> is dropped from the new document, so the id is
  never found, and the store then holds a document missing an indexed field.
\<close>

lemma find_or_create_dollar:
  assumes "db_wf d" and "CHR ''$'' \<in> set g" and "find_by_googleId g d = None"
    and "find_or_create g d = (res, d')"
  shows "find_by_googleId g d' = None \<and> (\<exists>v \<in> set (users d'). googleId v = None \<or> username v = None)"
proof -
  let ?u = "foc_conditions g (next_oid d)"
  have u: "?u = empty_doc (next_oid d)" using assms(2) by (simp add: foc_conditions_def)
  have fresh: "next_oid d \<notin> uid ` set (users d)" using assms(1) by (auto simp: db_wf_def)
  have "find_or_create g d =
          (if unique_ok (users d) ?u then (Inr ?u, d\<lparr>next_oid := Suc (next_oid d), users := users d @ [?u]\<rparr>)
           else (Inl DuplicateKey, d\<lparr>next_oid := Suc (next_oid d)\<rparr>))"
    using assms(3) by (simp add: find_or_create_def new_oid_def save_doc_def Let_def)
  with assms(3,4) u fresh show ?thesis
    by (auto simp: find_by_googleId_def find_one_def find_snoc empty_doc_def unique_ok_def split: if_splits)
      (metis)+
qed

lemma find_or_create_dollar_fails:
  assumes "CHR ''$'' \<in> set g" and "find_by_googleId g d = None"
    and "v \<in> set (users d)" and "googleId v = None \<or> username v = None"
  shows "find_or_create g d = (Inl DuplicateKey, d\<lparr>next_oid := Suc (next_oid d)\<rparr>)"
proof -
  have "\<not> unique_ok (users d) (foc_conditions g (next_oid d))"
    using assms(1,3,4) by (force simp: unique_ok_def foc_conditions_def empty_doc_def)
  with assms(2) show ?thesis by (simp add: find_or_create_def new_oid_def save_doc_def Let_def)
qed

end
