(* ===== verification/Credential.thy ===== *)
theory Credential
  imports Store
begin

text \<open>
  Local credentials: what \<open>userSchema.plugin(passportLocalMongoose)\<close> (src/app.js
  line 45) adds to the model and what \<open>passport.use(User.createStrategy())\<close>
  (line 51) installs. \<open>set_password\<close> stores a random salt and the pbkdf2 digest
  of the password under it; \<open>authenticate_user\<close> recomputes the digest and
  compares; \<open>register\<close> is \<open>User.register\<close> with its checks in the library's order;
  \<open>local_verify\<close> is the passport-local strategy around \<open>User.authenticate()\<close>,
  with passport's three outcomes: success, failure with an HTTP status, error.
  JavaScript's falsy empty string is written out as tests against \<open>[]\<close>.
\<close>

datatype auth_result = AuthSuccess user | AuthFail nat | AuthError error

definition set_password :: "kdf \<Rightarrow> string \<Rightarrow> string \<Rightarrow> user \<Rightarrow> error + user" where
  "set_password kdf s pw u =
     (if pw = [] then Inl MissingPasswordError
      else Inr (u\<lparr>salt := Some s, hash := Some (kdf s pw)\<rparr>))"

definition authenticate_user :: "kdf \<Rightarrow> user \<Rightarrow> string \<Rightarrow> error + user" where
  "authenticate_user kdf u pw =
     (case salt u of
        None \<Rightarrow> Inl NoSaltValueStoredError
      | Some s \<Rightarrow>
          (if s = [] then Inl NoSaltValueStoredError
           else (case hash u of
                   None \<Rightarrow> Inl HashFieldMissing
                 | Some h \<Rightarrow> (if kdf s pw = h then Inr u else Inl IncorrectPasswordError))))"

text \<open>\<open>User.authenticate()\<close>: look the user up by name, then check the password.\<close>

definition pl_authenticate :: "kdf \<Rightarrow> db_state \<Rightarrow> string \<Rightarrow> string \<Rightarrow> error + user" where
  "pl_authenticate kdf d n pw =
     (case find_by_username n d of
        None \<Rightarrow> Inl IncorrectUsernameError
      | Some u \<Rightarrow> authenticate_user kdf u pw)"

text \<open>
  The strategy: missing credentials fail with 400; the library's
  \<open>cb(null, false, err)\<close> answers fail with passport's default 401; a thrown
  error (no stored hash beside a stored salt) is an error.
\<close>

definition local_verify :: "kdf \<Rightarrow> db_state \<Rightarrow> string \<Rightarrow> string \<Rightarrow> auth_result" where
  "local_verify kdf d n pw =
     (if n = [] \<or> pw = [] then AuthFail 400
      else (case pl_authenticate kdf d n pw of
              Inr u \<Rightarrow> AuthSuccess u
            | Inl HashFieldMissing \<Rightarrow> AuthError HashFieldMissing
            | Inl _ \<Rightarrow> AuthFail 401))"

text \<open>
  \<open>User.register({username: n, active: false}, pw, cb)\<close>: the document is built
  first (drawing an ObjectId; \<open>active\<close> is not a schema path and is dropped), then
  the username is checked, looked up, the password set, and the document saved.
\<close>

definition register :: "kdf \<Rightarrow> string \<Rightarrow> string \<Rightarrow> string \<Rightarrow> db_state \<Rightarrow> (error + user) \<times> db_state" where
  "register kdf s n pw d =
     (let (i, d1) = new_oid d; u = (empty_doc i)\<lparr>username := Some n\<rparr>
      in if n = [] then (Inl MissingUsernameError, d1)
         else if find_by_username n d1 \<noteq> None then (Inl UserExistsError, d1)
         else (case set_password kdf s pw u of
                 Inl e \<Rightarrow> (Inl e, d1)
               | Inr u' \<Rightarrow> (case save_doc u' d1 of
                              Inl e \<Rightarrow> (Inl e, d1)
                            | Inr d2 \<Rightarrow> (Inr u', d2))))"

subsection \<open>Credential invariant\<close>

text \<open>Salt and hash are written together, so a stored user has both or neither.\<close>

definition creds_ok :: "db_state \<Rightarrow> bool" where
  "creds_ok d \<longleftrightarrow> (\<forall>u \<in> set (users d). (salt u = None) = (hash u = None))"

lemma creds_ok_init: "creds_ok init_db"
  by (simp add: creds_ok_def init_db_def)

lemma creds_ok_next_oid [simp]: "creds_ok (d\<lparr>next_oid := k\<rparr>) = creds_ok d"
  by (simp add: creds_ok_def)

lemma local_verify_next_oid [simp]:
  "local_verify kdf (d\<lparr>next_oid := k\<rparr>) n pw = local_verify kdf d n pw"
  by (simp add: local_verify_def pl_authenticate_def find_by_username_def find_one_def)

lemma set_password_Inr:
  "set_password kdf s pw u = Inr u' \<longleftrightarrow>
     pw \<noteq> [] \<and> u' = u\<lparr>salt := Some s, hash := Some (kdf s pw)\<rparr>"
  by (auto simp: set_password_def)

text \<open>Round trip: a password just set verifies.\<close>

lemma set_password_authenticate:
  "s \<noteq> [] \<Longrightarrow> set_password kdf s pw u = Inr u' \<Longrightarrow> authenticate_user kdf u' pw = Inr u'"
  by (auto simp: set_password_Inr authenticate_user_def)

lemma register_eq [store_eqs]:
  "register kdf s n pw d =
     (let d1 = d\<lparr>next_oid := Suc (next_oid d)\<rparr>;
          u = (empty_doc (next_oid d))\<lparr>username := Some n\<rparr>
      in if n = [] then (Inl MissingUsernameError, d1)
         else if find_by_username n d \<noteq> None then (Inl UserExistsError, d1)
         else if pw = [] then (Inl MissingPasswordError, d1)
         else (let u' = u\<lparr>salt := Some s, hash := Some (kdf s pw)\<rparr>
               in if unique_ok (users d) u' then (Inr u', d1\<lparr>users := users d @ [u']\<rparr>)
                  else (Inl DuplicateKey, d1)))"
  by (simp add: register_def new_oid_def set_password_def save_doc_def find_by_username_def
      find_one_def Let_def)

lemma register_Inr:
  assumes "register kdf s n pw d = (Inr u, d')"
  shows "d' = \<lparr>users = users d @ [u], next_oid = Suc (next_oid d)\<rparr>"
    and "u = (empty_doc (next_oid d))\<lparr>username := Some n, salt := Some s, hash := Some (kdf s pw)\<rparr>"
    and "n \<noteq> []" and "pw \<noteq> []" and "find_by_username n d = None"
    and "unique_ok (users d) u"
  using assms by (auto simp: register_eq Let_def empty_doc_def split: if_splits)

lemma register_Inl:
  "register kdf s n pw d = (Inl e, d') \<Longrightarrow> d' = d\<lparr>next_oid := Suc (next_oid d)\<rparr>"
  by (auto simp: register_eq Let_def split: if_splits)

lemma register_wf:
  assumes "db_wf d" and "register kdf s n pw d = (r, d')"
  shows "db_wf d'"
proof (cases r)
  case (Inl e)
  with assms have "d' = snd (new_oid d)" by (simp add: register_Inl new_oid_def)
  with assms(1) show ?thesis by (simp add: new_oid_wf)
next
  case (Inr u)
  note R = register_Inr [OF assms(2) [unfolded Inr]]
  from assms(1) R(1,2,6) show ?thesis
    by (auto simp: db_wf_def unique_ok_def empty_doc_def)
qed

text \<open>A user just registered passes the local strategy with the same credentials.\<close>

lemma register_local_verify:
  assumes "db_wf d" and "s \<noteq> []" and "register kdf s n pw d = (Inr u, d')"
  shows "local_verify kdf d' n pw = AuthSuccess u"
proof -
  note R = register_Inr [OF assms(3)]
  have "db_wf d'" using register_wf [OF assms(1,3)] .
  moreover have "u \<in> set (users d')" and "username u = Some n" using R(1,2) by auto
  ultimately have "find_by_username n d' = Some u" by (rule find_by_username_member)
  moreover have "authenticate_user kdf u pw = Inr u"
    using R(2) assms(2) by (simp add: authenticate_user_def)
  ultimately show ?thesis using R(3,4) by (simp add: local_verify_def pl_authenticate_def)
qed

text \<open>
  When registration succeeds: a non-empty name that is not taken, a non-empty
  password, and no stored document without \<open>googleId\<close> (which would collide
  with the new document's \<open>null\<close> in the \<open>googleId\<close> index).
\<close>

lemma register_success:
  assumes "db_wf d" and "n \<noteq> []" and "pw \<noteq> []" and "find_by_username n d = None"
    and "\<forall>v \<in> set (users d). googleId v \<noteq> None"
  shows "register kdf s n pw d =
           (let u = (empty_doc (next_oid d))\<lparr>username := Some n, salt := Some s, hash := Some (kdf s pw)\<rparr>
            in (Inr u, \<lparr>users = users d @ [u], next_oid = Suc (next_oid d)\<rparr>))"
proof -
  have "\<forall>v \<in> set (users d). uid v < next_oid d" using assms(1) by (simp add: db_wf_def)
  then have "next_oid d \<notin> uid ` set (users d)" by auto
  moreover have "None \<notin> googleId ` set (users d)" using assms(5) by auto
  moreover have "Some n \<notin> username ` set (users d)" using assms(4) by (auto simp: find_by_username_None)
  ultimately show ?thesis using assms(2,3,4) by (simp add: register_eq unique_ok_def empty_doc_def Let_def)
qed

text \<open>A document without \<open>googleId\<close> in the store makes every registration fail.\<close>

lemma register_null_googleId:
  assumes "v \<in> set (users d)" and "googleId v = None"
  shows "register kdf s n pw d =
           (Inl (if n = [] then MissingUsernameError else if find_by_username n d \<noteq> None then UserExistsError
                 else if pw = [] then MissingPasswordError else DuplicateKey),
            d\<lparr>next_oid := Suc (next_oid d)\<rparr>)"
proof -
  have "None \<in> googleId ` set (users d)" using assms by force
  then show ?thesis by (simp add: register_eq unique_ok_def empty_doc_def Let_def)
qed

lemma register_creds_ok:
  "creds_ok d \<Longrightarrow> register kdf s n pw d = (r, d') \<Longrightarrow> creds_ok d'"
proof (cases r)
  case (Inl e)
  then show "creds_ok d \<Longrightarrow> register kdf s n pw d = (r, d') \<Longrightarrow> creds_ok d'"
    by (auto dest: register_Inl)
next
  case (Inr u)
  assume "creds_ok d" and "register kdf s n pw d = (r, d')"
  with Inr register_Inr(1,2) [of kdf s n pw d u d'] show ?thesis
    by (auto simp: creds_ok_def)
qed

lemma find_or_create_creds_ok:
  "creds_ok d \<Longrightarrow> creds_ok (snd (find_or_create g d))"
  by (auto simp: creds_ok_def find_or_create_def new_oid_def save_doc_def foc_conditions_def
      empty_doc_def Let_def split: option.splits if_splits)

subsection \<open>Password checking\<close>

lemma register_grows: "db_grows d (snd (register kdf s n pw d))"
  by (auto simp: register_eq db_grows_def unique_ok_def empty_doc_def Let_def)

lemma register_key_missing: "key_missing d \<Longrightarrow> key_missing (snd (register kdf s n pw d))"
  by (auto simp: register_eq key_missing_def empty_doc_def Let_def)

lemma local_verify_fail_codes: "local_verify kdf d n pw = AuthFail k \<Longrightarrow> k = 400 \<or> k = 401"
  by (auto simp: local_verify_def split: if_splits sum.splits error.splits)

lemma local_verify_member: "local_verify kdf d n pw = AuthSuccess u \<Longrightarrow> u \<in> set (users d)"
  by (auto simp: local_verify_def pl_authenticate_def authenticate_user_def
      split: if_splits option.splits sum.splits error.splits dest: find_by_username_SomeD)

text \<open>
  With both fields filled in and the credential invariant, the strategy either
  succeeds or fails with 401: an unknown name, a wrong password and a
  missing salt all look the same to the client.
\<close>

lemma local_verify_cases:
  assumes "creds_ok d" and "n \<noteq> []" and "pw \<noteq> []"
  shows "(\<exists>u. local_verify kdf d n pw = AuthSuccess u) \<or> local_verify kdf d n pw = AuthFail 401"
proof (cases "find_by_username n d")
  case None
  then show ?thesis using assms(2,3) by (simp add: local_verify_def pl_authenticate_def)
next
  case (Some u)
  then have "u \<in> set (users d)" by (auto dest: find_by_username_SomeD)
  with assms(1) have "(salt u = None) = (hash u = None)" by (simp add: creds_ok_def)
  with Some assms(2,3) show ?thesis
    by (auto simp: local_verify_def pl_authenticate_def authenticate_user_def split: option.splits)
qed

text \<open>
  C7. The local strategy rejects a wrong password: for a stored user with a
  non-empty salt whose hash is the digest of its password, a non-empty
  password with a different digest fails with 401.
\<close>

theorem wrong_password_rejected:
  assumes "db_wf d" and "u \<in> set (users d)" and "username u = Some n" and "n \<noteq> []"
    and "salt u = Some s" and "s \<noteq> []" and "hash u = Some (kdf s pw)"
    and "pw' \<noteq> []" and "kdf s pw' \<noteq> kdf s pw"
  shows "local_verify kdf d n pw' = AuthFail 401"
proof -
  have "find_by_username n d = Some u" using assms(1,2,3) by (rule find_by_username_member)
  moreover have "authenticate_user kdf u pw' = Inl IncorrectPasswordError"
    using assms(5,6,7,9) by (simp add: authenticate_user_def)
  ultimately show ?thesis using assms(4,8) by (simp add: local_verify_def pl_authenticate_def)
qed

theorem wrong_password_rejected_witness:
  "local_verify (\<lambda>s p. s @ p)
     \<lparr>users = [\<lparr>uid = 0, username = Some ''alice'', googleId = None, password = None,
                 salt = Some ''ab'', hash = Some ''abpw''\<rparr>], next_oid = 1\<rparr> ''alice'' ''px'' = AuthFail 401"
proof -
  let ?u = "\<lparr>uid = 0, username = Some ''alice'', googleId = None, password = None,
             salt = Some ''ab'', hash = Some ''abpw''\<rparr>"
  let ?d = "\<lparr>users = [?u], next_oid = 1\<rparr>"
  have "db_wf ?d" by (simp add: db_wf_def)
  from wrong_password_rejected [OF this, of ?u "''alice''" "''ab''" "\<lambda>s p. s @ p" "''pw''" "''px''"]
  show ?thesis by simp
qed

end
