(* ===== verification/Session.thy ===== *)
theory Session
  imports Store
begin

text \<open>
  Sessions: express-session configured at src/app.js lines 18--22
  (\<open>resave: false, saveUninitialized: false\<close>, the default MemoryStore),
  \<open>passport.session()\<close> (line 25) and the serializer pair of lines 53--67.
  The store maps a session id to the session's \<open>passport.user\<close> entry
  (\<open>None\<close>: a stored session without a user). A request works on a context
  \<open>ctx\<close>: its \<open>req.sessionID\<close>, its \<open>req.session.passport.user\<close> and its
  \<open>req.user\<close>. Session ids come from a counter (express-session draws 24
  random bytes; only their freshness is used). \<open>passport_logIn\<close> and
  \<open>passport_logOut\<close> are passport's SessionManager: log-in regenerates the
  session and saves the serialized user in the new one; log-out deletes the
  user, saves, and regenerates. At the end of every response express-session
  saves the session when the handler modified it and sends its id in a new
  cookie (\<open>session_commit\<close>, \<open>set_cookie\<close>): after log-out that is the new,
  empty session.
\<close>

record payload =
  p_id :: oid
  p_username :: "string option"
  p_picture :: "string option"

text \<open>
  \<open>serializeUser\<close> keeps \<open>{id, username, picture}\<close>; the schema has no
  \<open>picture\<close> path, so that field is always \<open>undefined\<close>.
\<close>

definition serializeUser :: "user \<Rightarrow> payload" where
  "serializeUser u = \<lparr>p_id = uid u, p_username = username u, p_picture = None\<rparr>"

text \<open>\<open>deserializeUser\<close> trusts the payload: no lookup in the user store.\<close>

definition deserializeUser :: "payload \<Rightarrow> payload" where
  "deserializeUser p = p"

record session_store =
  sessions :: "sid \<Rightarrow> payload option option"
  next_sid :: sid

datatype req_user = DocUser user | SessUser payload

record ctx =
  c_sid :: sid
  c_data :: "payload option"
  c_user :: "req_user option"

definition init_sessions :: session_store where
  "init_sessions = \<lparr>sessions = Map.empty, next_sid = 0\<rparr>"

text \<open>
  express-session on an incoming request: the session of the cookie's id if the
  store has it, otherwise a new uninitialised session under a new id (not stored).
\<close>

definition session_load :: "session_store \<Rightarrow> sid option \<Rightarrow> ctx \<times> session_store" where
  "session_load ss cookie =
     (case cookie of
        Some c \<Rightarrow> (case sessions ss c of
                     Some dat \<Rightarrow> (\<lparr>c_sid = c, c_data = dat, c_user = None\<rparr>, ss)
                   | None \<Rightarrow> (\<lparr>c_sid = next_sid ss, c_data = None, c_user = None\<rparr>,
                              ss\<lparr>next_sid := Suc (next_sid ss)\<rparr>))
      | None \<Rightarrow> (\<lparr>c_sid = next_sid ss, c_data = None, c_user = None\<rparr>,
                 ss\<lparr>next_sid := Suc (next_sid ss)\<rparr>))"

text \<open>\<open>passport.session()\<close>: restore \<open>req.user\<close> from the session, if it has one.\<close>

definition passport_session :: "ctx \<Rightarrow> ctx" where
  "passport_session cx = cx\<lparr>c_user := map_option (\<lambda>p. SessUser (deserializeUser p)) (c_data cx)\<rparr>"

definition is_authenticated :: "ctx \<Rightarrow> bool" where
  "is_authenticated cx \<longleftrightarrow> c_user cx \<noteq> None"

text \<open>\<open>req.session.regenerate\<close>: destroy the stored session, start a new one.\<close>

definition sess_regenerate :: "session_store \<Rightarrow> ctx \<Rightarrow> session_store \<times> ctx" where
  "sess_regenerate ss cx =
     (ss\<lparr>sessions := (sessions ss)(c_sid cx := None), next_sid := Suc (next_sid ss)\<rparr>,
      cx\<lparr>c_sid := next_sid ss, c_data := None\<rparr>)"

definition sess_save :: "session_store \<Rightarrow> ctx \<Rightarrow> session_store" where
  "sess_save ss cx = ss\<lparr>sessions := (sessions ss)(c_sid cx \<mapsto> c_data cx)\<rparr>"

text \<open>\<open>req.login(u)\<close>: \<open>req.user\<close> is set, the session regenerated, the user serialized into it, the session saved.\<close>

definition passport_logIn :: "user \<Rightarrow> session_store \<Rightarrow> ctx \<Rightarrow> session_store \<times> ctx" where
  "passport_logIn u ss cx =
     (let (ss1, cx1) = sess_regenerate ss (cx\<lparr>c_user := Some (DocUser u)\<rparr>);
          cx2 = cx1\<lparr>c_data := Some (serializeUser u)\<rparr>
      in (sess_save ss1 cx2, cx2))"

text \<open>\<open>req.logout()\<close>: \<open>req.user\<close> cleared, the user deleted from the session, saved, regenerated.\<close>

definition passport_logOut :: "session_store \<Rightarrow> ctx \<Rightarrow> session_store \<times> ctx" where
  "passport_logOut ss cx =
     (let cx1 = cx\<lparr>c_user := None, c_data := None\<rparr>
      in sess_regenerate (sess_save ss cx1) cx1)"

text \<open>
  The end of the response (express-session's proxied \<open>res.end\<close>). Here \<open>cx0\<close>
  is the request's session as loaded and \<open>cx\<close> the session at the end.
  \<open>isModified\<close> holds when the session id or the session's data changed
  since the load: \<open>originalId\<close> differs from \<open>req.sessionID\<close> after a
  regenerate, or the hash differs.

  With \<open>saveUninitialized: false\<close>, \<open>shouldSave\<close> saves a modified session.
  Handlers of this program change the session only through passport's
  log-in and log-out, and both regenerate it. So \<open>isSaved\<close> fails exactly
  when the session is modified, and an unmodified session is never written
  (\<open>resave: false\<close>).

  \<open>shouldSetCookie\<close> sends \<open>Set-Cookie\<close> with the session id when the
  browser's cookie names another id and the session is modified. The cookie
  has no \<open>maxAge\<close> and \<open>rolling\<close> is off, so an unchanged id is never
  re-sent; otherwise the browser keeps its cookie.
\<close>

definition sess_modified :: "ctx \<Rightarrow> ctx \<Rightarrow> bool" where
  "sess_modified cx0 cx \<longleftrightarrow> c_sid cx \<noteq> c_sid cx0 \<or> c_data cx \<noteq> c_data cx0"

definition session_commit :: "ctx \<Rightarrow> ctx \<Rightarrow> session_store \<Rightarrow> session_store" where
  "session_commit cx0 cx ss =
     (if sess_modified cx0 cx then ss\<lparr>sessions := (sessions ss)(c_sid cx \<mapsto> c_data cx)\<rparr> else ss)"

definition set_cookie :: "sid option \<Rightarrow> ctx \<Rightarrow> ctx \<Rightarrow> sid option" where
  "set_cookie cookie cx0 cx =
     (if cookie \<noteq> Some (c_sid cx) \<and> sess_modified cx0 cx then Some (c_sid cx) else cookie)"

text \<open>
  The identity a cookie carries: the serialized user of the stored session the
  cookie names, if there is one. This is what \<open>passport.session()\<close> restores.
\<close>

definition session_user :: "session_store \<Rightarrow> sid option \<Rightarrow> payload option" where
  "session_user ss cookie =
     (case cookie of
        None \<Rightarrow> None
      | Some k \<Rightarrow> (case sessions ss k of Some (Some p) \<Rightarrow> Some p | _ \<Rightarrow> None))"

subsection \<open>The session-store invariant\<close>

text \<open>Every stored id, and the id of the request's session, was drawn from the counter.\<close>

definition sess_wf :: "session_store \<Rightarrow> bool" where
  "sess_wf ss \<longleftrightarrow> (\<forall>s. next_sid ss \<le> s \<longrightarrow> sessions ss s = None)"

definition ctx_wf :: "session_store \<Rightarrow> ctx \<Rightarrow> bool" where
  "ctx_wf ss cx \<longleftrightarrow> sess_wf ss \<and> c_sid cx < next_sid ss"

text \<open>
  The sessions a step may touch: apart from the request's own id \<open>k\<close>, every id
  issued before the step keeps its session, and the counter does not go back.
\<close>

definition sess_frame :: "sid \<Rightarrow> session_store \<Rightarrow> session_store \<Rightarrow> bool" where
  "sess_frame k ss ss' \<longleftrightarrow>
     next_sid ss \<le> next_sid ss' \<and> (\<forall>j. j \<noteq> k \<longrightarrow> j < next_sid ss \<longrightarrow> sessions ss' j = sessions ss j)"

text \<open>
  A session payload is authentic for a store when its id was drawn from the
  store's counter and, if a stored user has that id, it is that user's
  serialization.
\<close>

definition payload_ok :: "db_state \<Rightarrow> payload \<Rightarrow> bool" where
  "payload_ok d p \<longleftrightarrow>
     p_id p < next_oid d \<and> (\<forall>v \<in> set (users d). uid v = p_id p \<longrightarrow> p = serializeUser v)"

definition sess_auth :: "db_state \<Rightarrow> session_store \<Rightarrow> bool" where
  "sess_auth d ss \<longleftrightarrow> (\<forall>k p. sessions ss k = Some (Some p) \<longrightarrow> payload_ok d p)"

lemma sess_wf_init: "sess_wf init_sessions"
  by (simp add: sess_wf_def init_sessions_def)

lemma session_load_wf:
  "sess_wf ss \<Longrightarrow> session_load ss cookie = (cx, ss') \<Longrightarrow> ctx_wf ss' cx"
  by (auto simp: session_load_def ctx_wf_def sess_wf_def split: option.splits)
    (metis not_less option.distinct(1))

lemma sess_regenerate_wf:
  "ctx_wf ss cx \<Longrightarrow> sess_regenerate ss cx = (ss', cx') \<Longrightarrow> ctx_wf ss' cx'"
  by (auto simp: sess_regenerate_def ctx_wf_def sess_wf_def)

lemma sess_save_wf: "ctx_wf ss cx \<Longrightarrow> ctx_wf (sess_save ss cx) cx"
  by (auto simp: sess_save_def ctx_wf_def sess_wf_def)

lemma ctx_wf_user [simp]: "ctx_wf ss (cx\<lparr>c_user := v\<rparr>) = ctx_wf ss cx"
  by (simp add: ctx_wf_def)

lemma ctx_wf_data [simp]: "ctx_wf ss (cx\<lparr>c_data := v\<rparr>) = ctx_wf ss cx"
  by (simp add: ctx_wf_def)

lemma passport_session_wf [simp]: "ctx_wf ss (passport_session cx) = ctx_wf ss cx"
  by (simp add: passport_session_def)

lemma passport_logIn_wf:
  "ctx_wf ss cx \<Longrightarrow> passport_logIn u ss cx = (ss', cx') \<Longrightarrow> ctx_wf ss' cx'"
  by (auto simp: passport_logIn_def sess_regenerate_def sess_save_def ctx_wf_def sess_wf_def)

lemma passport_logOut_wf:
  "ctx_wf ss cx \<Longrightarrow> passport_logOut ss cx = (ss', cx') \<Longrightarrow> ctx_wf ss' cx'"
  by (auto simp: passport_logOut_def sess_regenerate_def sess_save_def ctx_wf_def sess_wf_def)

subsection \<open>Loading a session and setting the cookie\<close>

lemma session_load_authenticated:
  "session_load ss c = (cx, ss') \<Longrightarrow>
     is_authenticated (passport_session cx) \<longleftrightarrow> session_user ss c \<noteq> None"
  by (auto simp: session_load_def session_user_def passport_session_def is_authenticated_def
      split: option.splits)

lemma session_load_sessions:
  "session_load ss c = (cx, ss') \<Longrightarrow> sessions ss' = sessions ss"
  by (auto simp: session_load_def split: option.splits)

lemma session_commit_next_sid [simp]: "next_sid (session_commit cx0 cx ss) = next_sid ss"
  by (simp add: session_commit_def)

text \<open>An unmodified session is neither written nor announced.\<close>

lemma commit_unmodified:
  "c_sid cx = c_sid cx0 \<Longrightarrow> c_data cx = c_data cx0 \<Longrightarrow>
   session_commit cx0 cx ss = ss \<and> set_cookie c cx0 cx = c"
  by (simp add: session_commit_def set_cookie_def sess_modified_def)

text \<open>Writing what the store already holds changes nothing.\<close>

lemma commit_stored:
  "sessions ss (c_sid cx) = Some (c_data cx) \<Longrightarrow> session_commit cx0 cx ss = ss"
  by (auto simp: session_commit_def fun_upd_idem)

lemma set_cookie_new_id:
  "c_sid cx \<noteq> c_sid cx0 \<Longrightarrow> set_cookie c cx0 cx = Some (c_sid cx)"
  by (auto simp: set_cookie_def sess_modified_def)

lemma commit_new_id:
  "c_sid cx \<noteq> c_sid cx0 \<Longrightarrow>
   session_commit cx0 cx ss = ss\<lparr>sessions := (sessions ss)(c_sid cx \<mapsto> c_data cx)\<rparr>"
  by (simp add: session_commit_def sess_modified_def)

text \<open>A loaded session has an id below the counter of the loaded store.\<close>

lemma session_load_sid:
  "sess_wf ss \<Longrightarrow> session_load ss c = (cx, ss') \<Longrightarrow> c_sid cx < next_sid ss'"
  by (auto dest: session_load_wf simp: ctx_wf_def)

lemma session_user_cong:
  "sessions ss' = sessions ss \<Longrightarrow> session_user ss' c = session_user ss c"
  unfolding session_user_def by (simp split: option.splits)

lemma session_user_stored:
  "sessions ss k = Some (Some p) \<Longrightarrow> session_user ss (Some k) = Some p"
  by (simp add: session_user_def)

subsection \<open>Log-in and log-out\<close>

lemma passport_logIn_eq [store_eqs]:
  "passport_logIn u ss cx =
     (let cx' = \<lparr>c_sid = next_sid ss, c_data = Some (serializeUser u), c_user = Some (DocUser u)\<rparr>
      in (\<lparr>sessions = ((sessions ss)(c_sid cx := None))(next_sid ss \<mapsto> Some (serializeUser u)),
           next_sid = Suc (next_sid ss)\<rparr>, cx'))"
  by (simp add: passport_logIn_def sess_regenerate_def sess_save_def Let_def)

lemma passport_logOut_eq [store_eqs]:
  "passport_logOut ss cx =
     (\<lparr>sessions = (sessions ss)(c_sid cx := None), next_sid = Suc (next_sid ss)\<rparr>,
      \<lparr>c_sid = next_sid ss, c_data = None, c_user = None\<rparr>)"
  by (simp add: passport_logOut_def sess_regenerate_def sess_save_def)

text \<open>
  Log-in moves the user to a session id the store has never held, destroying
  the old one: a session id fixed by an attacker before log-in carries nothing after it.
\<close>

lemma passport_logIn_fresh:
  assumes "sess_wf ss" and "passport_logIn u ss cx = (ss', cx')"
  shows "sessions ss (c_sid cx') = None" and "sessions ss' (c_sid cx) = None \<or> c_sid cx = c_sid cx'"
    and "sessions ss' (c_sid cx') = Some (Some (serializeUser u))"
  using assms by (auto simp: passport_logIn_eq sess_wf_def Let_def)

subsection \<open>Which sessions a step touches\<close>

lemma sess_frame_refl [simp]: "sess_frame k ss ss"
  by (simp add: sess_frame_def)

text \<open>Two steps compose when the second works on the first's id or on an id issued after the start.\<close>

lemma sess_frame_trans:
  "sess_frame k ss1 ss2 \<Longrightarrow> sess_frame k' ss2 ss3 \<Longrightarrow> k' = k \<or> next_sid ss1 \<le> k' \<Longrightarrow>
   sess_frame k ss1 ss3"
  unfolding sess_frame_def by (metis le_trans less_le_trans not_le)

lemma passport_logIn_frame:
  "passport_logIn u ss cx = (ss', cx') \<Longrightarrow> sess_frame (c_sid cx) ss ss' \<and> c_sid cx' = next_sid ss"
  by (auto simp: passport_logIn_eq sess_frame_def Let_def)

lemma passport_logOut_frame:
  "passport_logOut ss cx = (ss', cx') \<Longrightarrow> sess_frame (c_sid cx) ss ss'"
  by (auto simp: passport_logOut_eq sess_frame_def)

text \<open>The request's session is the cookie's one, or a new id.\<close>

lemma session_load_frame:
  "session_load ss c = (cx, ss') \<Longrightarrow>
   sess_frame k ss ss' \<and> (c = Some (c_sid cx) \<or> c_sid cx = next_sid ss)"
  by (auto simp: session_load_def sess_frame_def split: option.splits)

subsection \<open>Authentic session payloads\<close>

lemma payload_ok_grows: "payload_ok d p \<Longrightarrow> db_grows d d' \<Longrightarrow> payload_ok d' p"
  unfolding payload_ok_def db_grows_def by (metis Un_iff leD less_le_trans set_append)

lemma sess_auth_grows: "sess_auth d ss \<Longrightarrow> db_grows d d' \<Longrightarrow> sess_auth d' ss"
  unfolding sess_auth_def by (blast intro: payload_ok_grows)

lemma sess_auth_init: "sess_auth d init_sessions"
  by (simp add: sess_auth_def init_sessions_def)

text \<open>A stored user's payload is authentic, and so is a payload whose id was drawn and never stored.\<close>

lemma payload_ok_stored: "db_wf d \<Longrightarrow> u \<in> set (users d) \<Longrightarrow> payload_ok d (serializeUser u)"
  unfolding payload_ok_def db_wf_def serializeUser_def
  by (auto dest: inj_onD [OF distinct_map [THEN iffD1, THEN conjunct2]])

lemma payload_ok_fresh:
  "uid u < next_oid d \<Longrightarrow> uid u \<notin> uid ` set (users d) \<Longrightarrow> payload_ok d (serializeUser u)"
  by (auto simp: payload_ok_def serializeUser_def) (metis image_eqI)

lemma session_load_auth: "session_load ss c = (cx, ss') \<Longrightarrow> sess_auth d ss' = sess_auth d ss"
  by (simp add: sess_auth_def session_load_sessions)

lemma passport_logIn_auth:
  "sess_auth d ss \<Longrightarrow> payload_ok d (serializeUser u) \<Longrightarrow> passport_logIn u ss cx = (ss', cx') \<Longrightarrow>
   sess_auth d ss'"
  by (auto simp: sess_auth_def passport_logIn_eq Let_def split: if_splits)

lemma passport_logOut_auth:
  "sess_auth d ss \<Longrightarrow> passport_logOut ss cx = (ss', cx') \<Longrightarrow> sess_auth d ss'"
  by (auto simp: sess_auth_def passport_logOut_eq split: if_splits)


lemma sess_auth_empty:
  "sess_auth d ss \<Longrightarrow> sess_auth d (ss\<lparr>sessions := (sessions ss)(k \<mapsto> None)\<rparr>)"
  by (simp add: sess_auth_def)

lemma session_commit_wf: "ctx_wf ss cx \<Longrightarrow> sess_wf (session_commit cx0 cx ss)"
  by (auto simp: ctx_wf_def sess_wf_def session_commit_def)

end
