(* ===== verification/App.thy ===== *)
theory App
  imports Credential Session
begin

text \<open>
  The Express application of src/app.js. The program's state is the user
  store, the session store and the console output. A request is one of the
  routes of lines 83--173 (the body fields it reads are its arguments); its
  answer is a rendered page, a redirect, or a bare status. \<open>handle\<close> is the
  middleware pipeline of lines 15--25 (express-session loads the session,
  \<open>passport.session()\<close> restores \<open>req.user\<close>), then the route's handler, then
  express-session's end-of-response save and cookie. \<open>handle\<close> also takes the salt that the random generator
  supplies to this request, used if the request sets a password.
  The Google exchange (code for token, then profile) happens at the identity
  provider; its outcome is the argument of the callback request.
\<close>

datatype logline = LogError error | LogText string | LogProfile string

record app_state =
  db :: db_state
  store :: session_store
  console :: "logline list"

definition init_app :: app_state where
  "init_app = \<lparr>db = init_db, store = init_sessions, console = []\<rparr>"

datatype gcallback = GDenied | GExchangeError | GProfile string

datatype request =
    GetHome
  | GetAuthGoogle
  | GetAuthGoogleSecrets gcallback
  | GetLogin
  | GetRegister
  | GetSecrets
  | PostRegister string string
  | PostLogin string string
  | GetLogout
  | GetSubmit
  | PostSubmit string

datatype response = Render string | Redirect string | RedirectGoogle | Status nat

type_synonym handler_result = "response \<times> ctx \<times> app_state"

text \<open>
  \<open>passport.authenticate("local")(req, res, next)\<close> with the continuation both
  routes pass, \<open>res.redirect("/secrets")\<close>. A failure is answered by passport
  itself with the strategy's status; an error goes to Express's final handler (500).
\<close>

definition authenticate_local :: "kdf \<Rightarrow> string \<Rightarrow> string \<Rightarrow> ctx \<Rightarrow> app_state \<Rightarrow> handler_result" where
  "authenticate_local kdf n pw cx st =
     (case local_verify kdf (db st) n pw of
        AuthSuccess u \<Rightarrow>
          (let (ss', cx') = passport_logIn u (store st) cx
           in (Redirect ''/secrets'', cx', st\<lparr>store := ss'\<rparr>))
      | AuthFail code \<Rightarrow> (Status code, cx, st)
      | AuthError e \<Rightarrow> (Status 500, cx, st))"

text \<open>GET /secrets (lines 106--115).\<close>

definition handle_secrets :: "ctx \<Rightarrow> app_state \<Rightarrow> handler_result" where
  "handle_secrets cx st =
     (if is_authenticated cx then (Render ''secrets.ejs'', cx, st) else (Redirect ''/login'', cx, st))"

text \<open>
  POST /register (lines 117--132). On an error the handler logs the error, then
  the plaintext password, and redirects back to the form.
\<close>

definition handle_register :: "kdf \<Rightarrow> string \<Rightarrow> string \<Rightarrow> string \<Rightarrow> ctx \<Rightarrow> app_state \<Rightarrow> handler_result" where
  "handle_register kdf s n pw cx st =
     (let (r, d') = register kdf s n pw (db st); st1 = st\<lparr>db := d'\<rparr>
      in (case r of
            Inl e \<Rightarrow> (Redirect ''/register'', cx, st1\<lparr>console := console st1 @ [LogError e, LogText pw]\<rparr>)
          | Inr u \<Rightarrow> authenticate_local kdf n pw cx st1))"

text \<open>
  POST /login (lines 134--152). An unsaved document is built from the form and
  \<open>req.login\<close> is called on it before any check of the password; only then
  does the local strategy run. \<open>req.login\<close> cannot fail here (the MemoryStore
  and \<open>serializeUser\<close> report no error), so the \<open>console.log(err)\<close> branch,
  which would leave the request without a response, is not reachable.
\<close>

definition handle_login :: "kdf \<Rightarrow> string \<Rightarrow> string \<Rightarrow> ctx \<Rightarrow> app_state \<Rightarrow> handler_result" where
  "handle_login kdf n pw cx st =
     (let (i, d') = new_oid (db st);
          u = (empty_doc i)\<lparr>username := Some n, password := Some pw\<rparr>;
          (ss', cx') = passport_logIn u (store st) cx
      in authenticate_local kdf n pw cx' (st\<lparr>db := d', store := ss'\<rparr>))"

text \<open>GET /logout (lines 154--164); the MemoryStore reports no error, so the \<open>next(err)\<close> branch is not reachable.\<close>

definition handle_logout :: "ctx \<Rightarrow> app_state \<Rightarrow> handler_result" where
  "handle_logout cx st =
     (let (ss', cx') = passport_logOut (store st) cx in (Redirect ''/'', cx', st\<lparr>store := ss'\<rparr>))"

text \<open>The Google strategy's verify callback (lines 75--80): log the profile, find or create the user.\<close>

definition google_verify :: "string \<Rightarrow> app_state \<Rightarrow> (error + user) \<times> app_state" where
  "google_verify pid st =
     (let st1 = st\<lparr>console := console st @ [LogProfile pid]\<rparr>;
          (r, d') = find_or_create pid (db st1)
      in (r, st1\<lparr>db := d'\<rparr>))"

text \<open>GET /auth/google/secrets (lines 91--96), with \<open>failureRedirect: '/login'\<close>.\<close>

definition handle_google_callback :: "gcallback \<Rightarrow> ctx \<Rightarrow> app_state \<Rightarrow> handler_result" where
  "handle_google_callback cb cx st =
     (case cb of
        GDenied \<Rightarrow> (Redirect ''/login'', cx, st)
      | GExchangeError \<Rightarrow> (Status 500, cx, st)
      | GProfile pid \<Rightarrow>
          (let (r, st1) = google_verify pid st
           in (case r of
                 Inl e \<Rightarrow> (Status 500, cx, st1)
               | Inr u \<Rightarrow>
                   (let (ss', cx') = passport_logIn u (store st1) cx
                    in (Redirect ''/secrets'', cx', st1\<lparr>store := ss'\<rparr>)))))"

text \<open>The routing table of lines 83--173; POST /submit reads the secret and discards it.\<close>

fun route :: "kdf \<Rightarrow> string \<Rightarrow> request \<Rightarrow> ctx \<Rightarrow> app_state \<Rightarrow> handler_result" where
  "route kdf s GetHome cx st = (Render ''home.ejs'', cx, st)"
| "route kdf s GetAuthGoogle cx st = (RedirectGoogle, cx, st)"
| "route kdf s (GetAuthGoogleSecrets cb) cx st = handle_google_callback cb cx st"
| "route kdf s GetLogin cx st = (Render ''login.ejs'', cx, st)"
| "route kdf s GetRegister cx st = (Render ''register.ejs'', cx, st)"
| "route kdf s GetSecrets cx st = handle_secrets cx st"
| "route kdf s (PostRegister n pw) cx st = handle_register kdf s n pw cx st"
| "route kdf s (PostLogin n pw) cx st = handle_login kdf n pw cx st"
| "route kdf s GetLogout cx st = handle_logout cx st"
| "route kdf s GetSubmit cx st = (Render ''submit.ejs'', cx, st)"
| "route kdf s (PostSubmit secret) cx st = (Redirect ''/'', cx, st)"

text \<open>
  One request: the session middleware loads the session, the handler runs, and
  at the end of the response express-session saves the session if it was
  modified and sends the cookie. Returns the response, the browser's new
  cookie and the new state.
\<close>

definition handle :: "kdf \<Rightarrow> string \<Rightarrow> request \<Rightarrow> sid option \<Rightarrow> app_state \<Rightarrow> response \<times> sid option \<times> app_state" where
  "handle kdf s rq cookie st =
     (let (cx, ss) = session_load (store st) cookie;
          (resp, cx', st') = route kdf s rq (passport_session cx) (st\<lparr>store := ss\<rparr>)
      in (resp, set_cookie cookie cx cx', st'\<lparr>store := session_commit cx cx' (store st')\<rparr>))"

subsection \<open>The invariant and the reachable states\<close>

text \<open>
  The application invariant: the store invariant, the credential invariant, and
  the session-store invariant (with the request's own session for \<open>st_wf\<close>).
\<close>

definition st_wf :: "app_state \<Rightarrow> ctx \<Rightarrow> bool" where
  "st_wf st cx \<longleftrightarrow> db_wf (db st) \<and> creds_ok (db st) \<and> ctx_wf (store st) cx"

definition app_wf :: "app_state \<Rightarrow> bool" where
  "app_wf st \<longleftrightarrow> db_wf (db st) \<and> creds_ok (db st) \<and> sess_wf (store st)"

text \<open>
  Any number of browsers (and attackers) send any request with any cookie; the
  reachable states are those of all such request sequences from the empty stores.
\<close>

inductive reach :: "kdf \<Rightarrow> app_state \<Rightarrow> bool" for kdf where
  init: "reach kdf init_app"
| step: "reach kdf st \<Longrightarrow> handle kdf s rq c st = (r, c', st') \<Longrightarrow> reach kdf st'"

subsection \<open>Characteristic lemmas of the handlers\<close>

lemma authenticate_local_success:
  "local_verify kdf (db st) n pw = AuthSuccess u \<Longrightarrow>
   authenticate_local kdf n pw cx st = (r, cx', st') \<Longrightarrow>
   r = Redirect ''/secrets'' \<and> sessions (store st') (c_sid cx') = Some (Some (serializeUser u))
   \<and> c_data cx' = Some (serializeUser u) \<and> c_sid cx' = next_sid (store st) \<and> db st' = db st"
  by (auto simp: authenticate_local_def passport_logIn_eq Let_def)

lemma authenticate_local_fail:
  "(\<forall>u. local_verify kdf (db st) n pw \<noteq> AuthSuccess u) \<Longrightarrow>
   authenticate_local kdf n pw cx st = (r, cx', st') \<Longrightarrow>
   r \<in> {Status 400, Status 401, Status 500} \<and> cx' = cx \<and> st' = st"
  by (auto simp: authenticate_local_def local_verify_def split: auth_result.splits if_splits
      sum.splits error.splits)

text \<open>
  POST /login, whatever the credentials: the response's session holds a user.
  On success it is the stored user; otherwise it is the unsaved document built
  from the form, logged in before the password was checked.
\<close>

lemma handle_login_session:
  assumes "handle_login kdf n pw cx st = (r, cx', st')"
  shows "sessions (store st') (c_sid cx') =
           Some (Some (case local_verify kdf (db st) n pw of
                         AuthSuccess u \<Rightarrow> serializeUser u
                       | _ \<Rightarrow> \<lparr>p_id = next_oid (db st), p_username = Some n, p_picture = None\<rparr>))"
    and "r = (case local_verify kdf (db st) n pw of
                AuthSuccess u \<Rightarrow> Redirect ''/secrets''
              | AuthFail code \<Rightarrow> Status code
              | AuthError e \<Rightarrow> Status 500)"
    and "sessions (store st') (c_sid cx') = Some (c_data cx') \<and> next_sid (store st) \<le> c_sid cx'"
  using assms
  by (auto simp: handle_login_def authenticate_local_def passport_logIn_eq new_oid_def
      serializeUser_def empty_doc_def Let_def split: auth_result.splits)

text \<open>Log-in moves the browser to a session id not issued before the request and destroys its previous session.\<close>

lemma handle_login_ids:
  assumes "ctx_wf (store st) cx" and "handle_login kdf n pw cx st = (r, cx', st')"
  shows "next_sid (store st) \<le> c_sid cx' \<and> sessions (store st') (c_sid cx) = None"
  using assms
  by (auto simp: handle_login_def authenticate_local_def passport_logIn_eq new_oid_def ctx_wf_def
      Let_def split: auth_result.splits)

text \<open>
  The session a handler hands back: the request's own, unmodified; or one
  under a new id that the handler has saved; or the empty one under a new id
  that log-out leaves.
\<close>

lemma route_session_cases:
  assumes "route kdf s rq cx st = (r, cx', st')"
  shows "(c_sid cx' = c_sid cx \<and> c_data cx' = c_data cx) \<or> sessions (store st') (c_sid cx') = Some (c_data cx') \<or>
         (c_data cx' = None \<and> next_sid (store st) \<le> c_sid cx')"
proof (cases rq)
  case (PostLogin n pw)
  with assms show ?thesis using handle_login_session(3) by auto
next
  case (PostRegister n pw)
  with assms show ?thesis
    by (auto simp: handle_register_def authenticate_local_def passport_logIn_eq Let_def
        split: prod.splits sum.splits auth_result.splits)
next
  case GetLogout
  with assms show ?thesis by (auto simp: handle_logout_def passport_logOut_eq)
next
  case (GetAuthGoogleSecrets cb)
  with assms show ?thesis
    by (auto simp: handle_google_callback_def google_verify_def passport_logIn_eq Let_def
        split: gcallback.splits prod.splits sum.splits)
qed (use assms in \<open>auto simp: handle_secrets_def split: if_splits\<close>)

lemma handle_unfold:
  assumes "handle kdf s rq c st = (r, c', st')"
  obtains cx ss cx' st0 where "session_load (store st) c = (cx, ss)"
    and "route kdf s rq (passport_session cx) (st\<lparr>store := ss\<rparr>) = (r, cx', st0)"
    and "c' = set_cookie c cx cx'" and "st' = st0\<lparr>store := session_commit cx cx' (store st0)\<rparr>"
proof -
  obtain cx ss where ld: "session_load (store st) c = (cx, ss)" by fastforce
  obtain r0 cx' st0 where rt: "route kdf s rq (passport_session cx) (st\<lparr>store := ss\<rparr>) = (r0, cx', st0)"
    by (metis prod_cases3)
  have "handle kdf s rq c st = (r0, set_cookie c cx cx', st0\<lparr>store := session_commit cx cx' (store st0)\<rparr>)"
    by (simp add: handle_def ld rt)
  with assms have "r0 = r" "c' = set_cookie c cx cx'" "st' = st0\<lparr>store := session_commit cx cx' (store st0)\<rparr>"
    by auto
  with ld rt show ?thesis by (intro that) auto
qed

text \<open>
  What the end of the response does, by the kind of session the handler hands
  back: nothing, or writing the emptied session of a log-out under its new id.
\<close>

lemma handle_commit:
  assumes "handle kdf s rq c st = (r, c', st')"
  obtains cx ss cx' st0 where "session_load (store st) c = (cx, ss)"
    and "route kdf s rq (passport_session cx) (st\<lparr>store := ss\<rparr>) = (r, cx', st0)"
    and "c' = set_cookie c cx cx'"
    and "st' = st0 \<or> (c_data cx' = None \<and> next_sid ss \<le> c_sid cx' \<and>
           st' = st0\<lparr>store := (store st0)\<lparr>sessions := (sessions (store st0))(c_sid cx' \<mapsto> None)\<rparr>\<rparr>)"
proof -
  obtain cx ss cx' st0 where ld: "session_load (store st) c = (cx, ss)"
    and rt: "route kdf s rq (passport_session cx) (st\<lparr>store := ss\<rparr>) = (r, cx', st0)"
    and ck: "c' = set_cookie c cx cx'" and st': "st' = st0\<lparr>store := session_commit cx cx' (store st0)\<rparr>"
    using handle_unfold [OF assms] by metis
  consider (keep) "session_commit cx cx' (store st0) = store st0"
    | (empty) "c_data cx' = None" "next_sid ss \<le> c_sid cx'"
    using route_session_cases [OF rt] by (auto simp: passport_session_def commit_unmodified commit_stored)
  then have "st' = st0 \<or> (c_data cx' = None \<and> next_sid ss \<le> c_sid cx' \<and>
          st' = st0\<lparr>store := (store st0)\<lparr>sessions := (sessions (store st0))(c_sid cx' \<mapsto> None)\<rparr>\<rparr>)"
    using st' by cases (auto simp: session_commit_def)
  with ld rt ck show ?thesis by (rule that)
qed

text \<open>An unmodified session: the response leaves store and cookie alone.\<close>

lemma handle_passive_eq:
  "session_load (store st) c = (cx, ss) \<Longrightarrow>
   route kdf s rq (passport_session cx) (st\<lparr>store := ss\<rparr>) = (r, passport_session cx, st0) \<Longrightarrow>
   handle kdf s rq c st = (r, c, st0)"
  by (simp add: handle_def commit_unmodified passport_session_def)

text \<open>A session the handler saved under a new id: the response sends that id.\<close>

lemma handle_saved:
  assumes "sess_wf (store st)" and "session_load (store st) c = (cx, ss)"
    and "route kdf s rq (passport_session cx) (st\<lparr>store := ss\<rparr>) = (r, cx', st0)"
    and "sessions (store st0) (c_sid cx') = Some (c_data cx')" and "next_sid ss \<le> c_sid cx'"
  shows "handle kdf s rq c st = (r, Some (c_sid cx'), st0)"
proof -
  have "c_sid cx < next_sid ss" by (rule session_load_sid [OF assms(1,2)])
  with assms(5) have "c_sid cx' \<noteq> c_sid cx" by simp
  with assms(2,3,4) show ?thesis by (simp add: handle_def commit_stored set_cookie_new_id)
qed

lemma handle_GetSecrets_eq [route_eqs]:
  "sess_wf (store st) \<Longrightarrow> handle kdf s GetSecrets c st =
     (if session_user (store st) c \<noteq> None then Render ''secrets.ejs'' else Redirect ''/login'',
      c, st\<lparr>store := snd (session_load (store st) c)\<rparr>)"
proof -
  obtain cx ss where ld: "session_load (store st) c = (cx, ss)" by fastforce
  have "route kdf s GetSecrets (passport_session cx) (st\<lparr>store := ss\<rparr>) =
          (if session_user (store st) c \<noteq> None then Render ''secrets.ejs'' else Redirect ''/login'',
           passport_session cx, st\<lparr>store := ss\<rparr>)"
    by (simp add: handle_secrets_def session_load_authenticated [OF ld])
  from handle_passive_eq [OF ld this] ld show ?thesis by simp
qed

lemma handle_PostLogin:
  assumes "sess_wf (store st)" and "handle kdf s (PostLogin n pw) c st = (r, c', st')"
  shows "session_user (store st') c' =
           Some (case local_verify kdf (db st) n pw of
                   AuthSuccess u \<Rightarrow> serializeUser u
                 | _ \<Rightarrow> \<lparr>p_id = next_oid (db st), p_username = Some n, p_picture = None\<rparr>)
       \<and> r = (case local_verify kdf (db st) n pw of
                AuthSuccess u \<Rightarrow> Redirect ''/secrets''
              | AuthFail code \<Rightarrow> Status code
              | AuthError e \<Rightarrow> Status 500)"
proof -
  obtain cx ss where ld: "session_load (store st) c = (cx, ss)" by fastforce
  obtain r0 cx' st0 where rt: "handle_login kdf n pw (passport_session cx) (st\<lparr>store := ss\<rparr>) = (r0, cx', st0)"
    by (metis prod_cases3)
  note L = handle_login_session [OF rt]
  from L(3) have "handle kdf s (PostLogin n pw) c st = (r0, Some (c_sid cx'), st0)"
    using handle_saved [OF assms(1) ld] rt by simp
  with assms(2) have "r = r0" "c' = Some (c_sid cx')" "st' = st0" by auto
  with L(1,2) show ?thesis by (simp add: session_user_stored split: auth_result.splits)
qed

lemma handle_PostRegister_Inl [route_eqs]:
  assumes "sess_wf (store st)" and "register kdf s n pw (db st) = (Inl e, d)"
  shows "handle kdf s (PostRegister n pw) c st =
           (Redirect ''/register'', c,
            st\<lparr>db := d, store := snd (session_load (store st) c),
               console := console st @ [LogError e, LogText pw]\<rparr>)"
proof -
  obtain cx ss where ld: "session_load (store st) c = (cx, ss)" by fastforce
  have "route kdf s (PostRegister n pw) (passport_session cx) (st\<lparr>store := ss\<rparr>) =
          (Redirect ''/register'', passport_session cx,
           st\<lparr>db := d, store := ss, console := console st @ [LogError e, LogText pw]\<rparr>)"
    using assms(2) by (simp add: handle_register_def)
  from handle_passive_eq [OF ld this] ld show ?thesis by simp
qed

lemma handle_PostRegister_Inr:
  assumes "sess_wf (store st)" and "db_wf (db st)" and "s \<noteq> []" and "register kdf s n pw (db st) = (Inr u, d)"
    and "handle kdf s (PostRegister n pw) c st = (r, c', st')"
  shows "r = Redirect ''/secrets''" and "session_user (store st') c' = Some (serializeUser u)"
    and "db st' = d"
proof -
  obtain cx ss where ld: "session_load (store st) c = (cx, ss)" by fastforce
  obtain r0 cx' st0 where rt: "authenticate_local kdf n pw (passport_session cx) (st\<lparr>store := ss, db := d\<rparr>) = (r0, cx', st0)"
    by (metis prod_cases3)
  have rt': "route kdf s (PostRegister n pw) (passport_session cx) (st\<lparr>store := ss\<rparr>) = (r0, cx', st0)"
    using rt assms(4) by (simp add: handle_register_def)
  have lv: "local_verify kdf d n pw = AuthSuccess u"
    using register_local_verify [OF assms(2,3,4)] .
  have A: "r0 = Redirect ''/secrets''" "sessions (store st0) (c_sid cx') = Some (Some (serializeUser u))"
    "c_data cx' = Some (serializeUser u)" "c_sid cx' = next_sid ss" "db st0 = d"
    using authenticate_local_success [OF _ rt] lv by simp_all metis
  from handle_saved [OF assms(1) ld rt'] A have "handle kdf s (PostRegister n pw) c st = (r0, Some (c_sid cx'), st0)"
    by simp
  with assms(5) A show "r = Redirect ''/secrets''" "session_user (store st') c' = Some (serializeUser u)"
    "db st' = d" by (auto simp: session_user_stored)
qed

text \<open>
  GET /logout: passport empties the session, saves it and regenerates it;
  express-session then saves the new, empty session and sends its id. The
  session the cookie named is destroyed, and the browser's new cookie names
  an empty session.
\<close>

lemma handle_GetLogout:
  assumes "sess_wf (store st)" and "handle kdf s GetLogout c st = (r, c', st')"
  shows "r = Redirect ''/'' \<and> db st' = db st \<and> console st' = console st \<and>
         (\<exists>k. c' = Some k \<and> next_sid (store st) \<le> k \<and> sessions (store st') k = Some None) \<and>
         (\<forall>j. c = Some j \<longrightarrow> sessions (store st) j \<noteq> None \<longrightarrow> sessions (store st') j = None)"
proof -
  obtain cx ss where ld: "session_load (store st) c = (cx, ss)" by fastforce
  let ?cx' = "\<lparr>c_sid = next_sid ss, c_data = None, c_user = None\<rparr>"
  let ?ss0 = "\<lparr>sessions = (sessions ss)(c_sid cx := None), next_sid = Suc (next_sid ss)\<rparr>"
  have lt: "c_sid cx < next_sid ss" by (rule session_load_sid [OF assms(1) ld])
  have "handle kdf s GetLogout c st =
          (Redirect ''/'', Some (next_sid ss),
           st\<lparr>store := ?ss0\<lparr>sessions := (sessions ?ss0)(next_sid ss \<mapsto> None)\<rparr>\<rparr>)"
    using ld lt by (simp add: handle_def handle_logout_def passport_logOut_eq passport_session_def
        set_cookie_new_id commit_new_id)
  with assms(2) have r: "r = Redirect ''/''" and ck: "c' = Some (next_sid ss)"
    and st': "st' = st\<lparr>store := ?ss0\<lparr>sessions := (sessions ?ss0)(next_sid ss \<mapsto> None)\<rparr>\<rparr>" by auto
  have nx: "next_sid (store st) \<le> next_sid ss" using ld by (auto simp: session_load_def split: option.splits)
  have "sessions (store st') j = None" if "c = Some j" "sessions (store st) j \<noteq> None" for j
  proof -
    from ld that have "c_sid cx = j" by (auto simp: session_load_def)
    with lt st' show ?thesis by simp
  qed
  with r ck st' nx show ?thesis by auto
qed

lemma handle_PostLogin_ids:
  assumes "sess_wf (store st)" and "handle kdf s (PostLogin n pw) c st = (r, c', st')"
  shows "(\<exists>k. c' = Some k \<and> next_sid (store st) \<le> k) \<and>
         (\<forall>j. c = Some j \<longrightarrow> sessions (store st) j \<noteq> None \<longrightarrow> sessions (store st') j = None)"
proof -
  obtain cx ss where ld: "session_load (store st) c = (cx, ss)" by fastforce
  obtain r0 cx' st0 where rt: "handle_login kdf n pw (passport_session cx) (st\<lparr>store := ss\<rparr>) = (r0, cx', st0)"
    by (metis prod_cases3)
  note L = handle_login_session(3) [OF rt]
  from L have "handle kdf s (PostLogin n pw) c st = (r0, Some (c_sid cx'), st0)"
    using handle_saved [OF assms(1) ld] rt by simp
  with assms(2) have ck: "c' = Some (c_sid cx')" and st': "st' = st0" by auto
  have cw: "ctx_wf ss (passport_session cx)" using session_load_wf [OF assms(1) ld] by simp
  have I: "sessions (store st0) (c_sid cx) = None"
    using handle_login_ids [OF _ rt] cw by (simp add: passport_session_def)
  have "next_sid (store st) \<le> next_sid ss" using ld by (auto simp: session_load_def split: option.splits)
  with L ck have "\<exists>k. c' = Some k \<and> next_sid (store st) \<le> k" by auto
  moreover have "sessions (store st') j = None" if "c = Some j" "sessions (store st) j \<noteq> None" for j
  proof -
    from ld that have "c_sid cx = j" by (auto simp: session_load_def)
    with I st' show ?thesis by simp
  qed
  ultimately show ?thesis by blast
qed

lemma handle_google_profile:
  assumes "sess_wf (store st)" and "handle kdf s (GetAuthGoogleSecrets (GProfile g)) c st = (r, c', st')"
  shows "db st' = snd (find_or_create g (db st))"
    and "case fst (find_or_create g (db st)) of
           Inl e \<Rightarrow> r = Status 500
         | Inr u \<Rightarrow> r = Redirect ''/secrets'' \<and> session_user (store st') c' = Some (serializeUser u)"
proof -
  obtain cx ss where ld: "session_load (store st) c = (cx, ss)" by fastforce
  obtain res d where fc: "find_or_create g (db st) = (res, d)" by fastforce
  show "db st' = snd (find_or_create g (db st))"
    using assms(2) fc
    by (auto elim!: handle_unfold simp: handle_google_callback_def google_verify_def Let_def
        split: prod.splits sum.splits)
  show "case fst (find_or_create g (db st)) of
           Inl e \<Rightarrow> r = Status 500
         | Inr u \<Rightarrow> r = Redirect ''/secrets'' \<and> session_user (store st') c' = Some (serializeUser u)"
  proof (cases res)
    case (Inl e)
    with assms(2) fc show ?thesis
      by (auto elim!: handle_unfold simp: handle_google_callback_def google_verify_def)
  next
    case (Inr u)
    let ?st1 = "st\<lparr>store := ss, console := console st @ [LogProfile g], db := d\<rparr>"
    obtain ss' cx' where li: "passport_logIn u ss (passport_session cx) = (ss', cx')" by fastforce
    have rt: "route kdf s (GetAuthGoogleSecrets (GProfile g)) (passport_session cx) (st\<lparr>store := ss\<rparr>) =
                (Redirect ''/secrets'', cx', ?st1\<lparr>store := ss'\<rparr>)"
      using fc Inr li by (simp add: handle_google_callback_def google_verify_def)
    have S: "sessions ss' (c_sid cx') = Some (c_data cx')" "next_sid ss \<le> c_sid cx'"
      "c_data cx' = Some (serializeUser u)"
      using li by (auto simp: passport_logIn_eq Let_def)
    from handle_saved [OF assms(1) ld rt] S
    have "handle kdf s (GetAuthGoogleSecrets (GProfile g)) c st = (Redirect ''/secrets'', Some (c_sid cx'), ?st1\<lparr>store := ss'\<rparr>)"
      by simp
    with assms(2) S Inr fc show ?thesis by (auto simp: session_user_stored)
  qed
qed

lemma handle_PostSubmit:
  assumes "sess_wf (store st)" and "handle kdf s (PostSubmit x) c st = (r, c', st')"
  shows "r = Redirect ''/'' \<and> c' = c \<and> db st' = db st \<and> sessions (store st') = sessions (store st)
         \<and> console st' = console st"
proof -
  obtain cx ss where ld: "session_load (store st) c = (cx, ss)" by fastforce
  have "route kdf s (PostSubmit x) (passport_session cx) (st\<lparr>store := ss\<rparr>) =
          (Redirect ''/'', passport_session cx, st\<lparr>store := ss\<rparr>)" by simp
  from handle_passive_eq [OF ld this] assms(2) ld show ?thesis
    by (auto dest: session_load_sessions)
qed

subsection \<open>Frames: the sessions a request touches\<close>

lemma authenticate_local_frame:
  "authenticate_local kdf n pw cx st = (r, cx', st') \<Longrightarrow> sess_frame (c_sid cx) (store st) (store st')"
  by (auto simp: authenticate_local_def split: auth_result.splits prod.splits dest: passport_logIn_frame)

lemma handle_login_frame:
  assumes "handle_login kdf n pw cx st = (r, cx', st')"
  shows "sess_frame (c_sid cx) (store st) (store st')"
proof -
  let ?u = "(empty_doc (next_oid (db st)))\<lparr>username := Some n, password := Some pw\<rparr>"
  obtain ss1 cx1 where li: "passport_logIn ?u (store st) cx = (ss1, cx1)" by fastforce
  note F1 = passport_logIn_frame [OF li]
  from li assms have "authenticate_local kdf n pw cx1 (st\<lparr>db := snd (new_oid (db st)), store := ss1\<rparr>) = (r, cx', st')"
    by (simp add: handle_login_def new_oid_def)
  from authenticate_local_frame [OF this] have "sess_frame (c_sid cx1) ss1 (store st')" by simp
  with F1 show ?thesis by (auto intro: sess_frame_trans)
qed

lemma handle_register_frame:
  "handle_register kdf s n pw cx st = (r, cx', st') \<Longrightarrow> sess_frame (c_sid cx) (store st) (store st')"
  by (auto simp: handle_register_def Let_def split: sum.splits prod.splits dest!: authenticate_local_frame)

lemma handle_google_callback_frame:
  "handle_google_callback cb cx st = (r, cx', st') \<Longrightarrow> sess_frame (c_sid cx) (store st) (store st')"
  by (auto simp: handle_google_callback_def google_verify_def split: gcallback.splits sum.splits prod.splits
      dest!: passport_logIn_frame)

lemma route_frame:
  "route kdf s rq cx st = (r, cx', st') \<Longrightarrow> sess_frame (c_sid cx) (store st) (store st')"
  by (cases rq)
    (auto simp: handle_secrets_def handle_logout_def split: if_splits prod.splits
      dest: handle_register_frame handle_login_frame handle_google_callback_frame passport_logOut_frame)

subsection \<open>Sessions carry authentic users\<close>

lemma authenticate_local_auth:
  assumes "db_wf (db st)" and "sess_auth (db st) (store st)"
    and "authenticate_local kdf n pw cx st = (r, cx', st')"
  shows "sess_auth (db st') (store st')"
proof (cases "local_verify kdf (db st) n pw")
  case (AuthSuccess u)
  have ok: "payload_ok (db st) (serializeUser u)"
    using payload_ok_stored [OF assms(1) local_verify_member [OF AuthSuccess]] .
  obtain ss1 cx1 where li: "passport_logIn u (store st) cx = (ss1, cx1)" by fastforce
  with AuthSuccess assms(3) have "st' = st\<lparr>store := ss1\<rparr>" by (simp add: authenticate_local_def)
  with passport_logIn_auth [OF assms(2) ok li] show ?thesis by simp
qed (use assms(2,3) in \<open>auto simp: authenticate_local_def\<close>)

text \<open>The unsaved document of POST /login has an ObjectId that no stored document has or will have.\<close>

lemma handle_login_auth:
  assumes "db_wf (db st)" and "sess_auth (db st) (store st)"
    and "handle_login kdf n pw cx st = (r, cx', st')"
  shows "sess_auth (db st') (store st')"
proof -
  let ?u = "(empty_doc (next_oid (db st)))\<lparr>username := Some n, password := Some pw\<rparr>"
  let ?d = "snd (new_oid (db st))"
  have wf: "db_wf ?d" using new_oid_wf [OF assms(1)] .
  have ok: "payload_ok ?d (serializeUser ?u)"
    using assms(1) by (intro payload_ok_fresh) (auto simp: new_oid_def empty_doc_def db_wf_def)
  obtain ss1 cx1 where li: "passport_logIn ?u (store st) cx = (ss1, cx1)" by fastforce
  have "sess_auth ?d ss1"
    using passport_logIn_auth [OF sess_auth_grows [OF assms(2) new_oid_grows] ok li] .
  moreover from li assms(3) have "authenticate_local kdf n pw cx1 (st\<lparr>db := ?d, store := ss1\<rparr>) = (r, cx', st')"
    by (simp add: handle_login_def new_oid_def)
  ultimately show ?thesis using wf authenticate_local_auth [of "st\<lparr>db := ?d, store := ss1\<rparr>"] by simp
qed

lemma handle_register_auth:
  assumes "db_wf (db st)" and "sess_auth (db st) (store st)"
    and "handle_register kdf s n pw cx st = (r, cx', st')"
  shows "sess_auth (db st') (store st')"
proof -
  obtain res d' where reg: "register kdf s n pw (db st) = (res, d')" by fastforce
  have wf: "db_wf d'" using register_wf [OF assms(1) reg] .
  have sa: "sess_auth d' (store st)" using sess_auth_grows [OF assms(2)] register_grows [of "db st"] reg
    by (metis snd_conv)
  show ?thesis
  proof (cases res)
    case (Inl e)
    with reg assms(3) sa show ?thesis by (auto simp: handle_register_def)
  next
    case (Inr u)
    with reg assms(3) have "authenticate_local kdf n pw cx (st\<lparr>db := d'\<rparr>) = (r, cx', st')"
      by (simp add: handle_register_def)
    with wf sa show ?thesis using authenticate_local_auth [of "st\<lparr>db := d'\<rparr>"] by simp
  qed
qed

lemma handle_google_callback_auth:
  assumes "db_wf (db st)" and "sess_auth (db st) (store st)"
    and "handle_google_callback cb cx st = (r, cx', st')"
  shows "sess_auth (db st') (store st')"
proof (cases cb)
  case (GProfile pid)
  obtain res d' where fc: "find_or_create pid (db st) = (res, d')" by fastforce
  have wf: "db_wf d'" using find_or_create_wf [OF assms(1), of pid] fc by simp
  have sa: "sess_auth d' (store st)" using sess_auth_grows [OF assms(2)] find_or_create_grows [of "db st" pid] fc
    by (metis snd_conv)
  show ?thesis
  proof (cases res)
    case (Inl e)
    with assms(3) GProfile fc sa show ?thesis
      by (auto simp: handle_google_callback_def google_verify_def)
  next
    case (Inr u)
    have ok: "payload_ok d' (serializeUser u)"
      using payload_ok_stored [OF wf find_or_create_member [OF fc [unfolded Inr]]] .
    with assms(3) GProfile fc Inr sa show ?thesis
      by (auto simp: handle_google_callback_def google_verify_def split: prod.splits
          intro: passport_logIn_auth)
  qed
qed (use assms(2,3) in \<open>auto simp: handle_google_callback_def\<close>)

lemma route_auth:
  assumes "db_wf (db st)" and "sess_auth (db st) (store st)" and "route kdf s rq cx st = (r, cx', st')"
  shows "sess_auth (db st') (store st')"
proof (cases rq)
  case (GetAuthGoogleSecrets cb)
  with assms show ?thesis by (auto intro: handle_google_callback_auth)
next
  case (PostRegister n pw)
  with assms show ?thesis by (auto intro: handle_register_auth)
next
  case (PostLogin n pw)
  with assms show ?thesis by (auto intro: handle_login_auth)
next
  case GetLogout
  with assms show ?thesis by (auto simp: handle_logout_def split: prod.splits intro: passport_logOut_auth)
qed (use assms in \<open>auto simp: handle_secrets_def split: if_splits\<close>)

lemma handle_auth:
  assumes "db_wf (db st)" and "sess_auth (db st) (store st)" and "handle kdf s rq c st = (r, c', st')"
  shows "sess_auth (db st') (store st')"
proof -
  obtain cx ss cx' st0 where ld: "session_load (store st) c = (cx, ss)"
    and rt: "route kdf s rq (passport_session cx) (st\<lparr>store := ss\<rparr>) = (r, cx', st0)"
    and cm: "st' = st0 \<or> (c_data cx' = None \<and> next_sid ss \<le> c_sid cx' \<and>
           st' = st0\<lparr>store := (store st0)\<lparr>sessions := (sessions (store st0))(c_sid cx' \<mapsto> None)\<rparr>\<rparr>)"
    using handle_commit [OF assms(3)] by metis
  have "sess_auth (db (st\<lparr>store := ss\<rparr>)) (store (st\<lparr>store := ss\<rparr>))"
    using assms(2) session_load_auth [OF ld] by simp
  with assms(1) rt have "sess_auth (db st0) (store st0)" using route_auth [of "st\<lparr>store := ss\<rparr>"] by simp
  with cm show ?thesis by (auto intro: sess_auth_empty)
qed

subsection \<open>What a request does to the user store\<close>

text \<open>
  A request leaves the store alone, draws one ObjectId (POST /login), registers
  a user, or runs find-or-create: the store operations of the model are all
  the effects a request has on it.
\<close>

lemma authenticate_local_db: "authenticate_local kdf n pw cx st = (r, cx', st') \<Longrightarrow> db st' = db st"
  by (auto simp: authenticate_local_def split: auth_result.splits prod.splits)

lemma route_db:
  assumes "route kdf s rq cx st = (r, cx', st')"
  shows "db st' = db st \<or> db st' = snd (new_oid (db st)) \<or>
         (\<exists>n pw. db st' = snd (register kdf s n pw (db st))) \<or> (\<exists>g. db st' = snd (find_or_create g (db st)))"
proof (cases rq)
  case (PostLogin n pw)
  with assms have "db st' = snd (new_oid (db st))"
    by (auto simp: handle_login_def new_oid_def split: prod.splits dest!: authenticate_local_db)
  then show ?thesis by blast
next
  case (PostRegister n pw)
  with assms have "db st' = snd (register kdf s n pw (db st))"
    by (auto simp: handle_register_def Let_def split: prod.splits sum.splits dest!: authenticate_local_db)
  then show ?thesis by blast
next
  case (GetAuthGoogleSecrets cb)
  with assms have "db st' = db st \<or> (\<exists>g. db st' = snd (find_or_create g (db st)))"
    by (auto simp: handle_google_callback_def google_verify_def split: gcallback.splits prod.splits sum.splits)
      (metis snd_conv)+
  then show ?thesis by blast
qed (use assms in \<open>auto simp: handle_secrets_def handle_logout_def split: if_splits prod.splits\<close>)

lemma handle_key_missing:
  assumes "key_missing (db st)" and "handle kdf s rq c st = (r, c', st')"
  shows "key_missing (db st')"
proof -
  obtain cx ss cx' st0 where rt: "route kdf s rq (passport_session cx) (st\<lparr>store := ss\<rparr>) = (r, cx', st0)"
    and st': "st' = st0\<lparr>store := session_commit cx cx' (store st0)\<rparr>"
    using handle_unfold [OF assms(2)] by metis
  from route_db [OF rt] assms(1) st' show ?thesis
    by (auto intro: new_oid_key_missing register_key_missing find_or_create_key_missing)
qed

text \<open>The unfolding rules that evaluate a concrete run of requests by \<open>simp\<close>.\<close>

lemmas run_simps = handle_def init_app_def init_db_def init_sessions_def session_load_def
  passport_session_def handle_register_def register_eq find_by_username_def find_by_googleId_def
  find_one_def unique_ok_def empty_doc_def authenticate_local_def local_verify_def
  pl_authenticate_def authenticate_user_def passport_logIn_eq passport_logOut_eq set_cookie_def
  session_commit_def sess_modified_def
  handle_login_def handle_logout_def handle_secrets_def handle_google_callback_def
  google_verify_def find_or_create_def new_oid_def save_doc_def foc_conditions_def
  is_authenticated_def serializeUser_def deserializeUser_def session_user_def Let_def

subsection \<open>The application invariant\<close>

lemma app_wf_init: "app_wf init_app"
  by (simp add: app_wf_def init_app_def db_wf_init creds_ok_init sess_wf_init)

lemma authenticate_local_wf:
  "st_wf st cx \<Longrightarrow> authenticate_local kdf n pw cx st = (r, cx', st') \<Longrightarrow> st_wf st' cx'"
  by (auto simp: authenticate_local_def st_wf_def split: auth_result.splits prod.splits
      dest: passport_logIn_wf)

lemma handle_register_wf:
  assumes "st_wf st cx" and "handle_register kdf s n pw cx st = (r, cx', st')"
  shows "st_wf st' cx'"
proof -
  obtain res d' where reg: "register kdf s n pw (db st) = (res, d')" by fastforce
  with assms(1) have "st_wf (st\<lparr>db := d'\<rparr>) cx"
    by (auto simp: st_wf_def intro: register_wf register_creds_ok)
  then show ?thesis
  proof (cases res)
    case (Inl e)
    with reg assms(2) \<open>st_wf (st\<lparr>db := d'\<rparr>) cx\<close> show ?thesis
      by (auto simp: handle_register_def st_wf_def)
  next
    case (Inr u)
    with reg assms(2) have "authenticate_local kdf n pw cx (st\<lparr>db := d'\<rparr>) = (r, cx', st')"
      by (simp add: handle_register_def)
    with \<open>st_wf (st\<lparr>db := d'\<rparr>) cx\<close> show ?thesis by (rule authenticate_local_wf)
  qed
qed

lemma handle_login_wf:
  assumes "st_wf st cx" and "handle_login kdf n pw cx st = (r, cx', st')"
  shows "st_wf st' cx'"
proof -
  let ?u = "(empty_doc (next_oid (db st)))\<lparr>username := Some n, password := Some pw\<rparr>"
  obtain ss1 cx1 where li: "passport_logIn ?u (store st) cx = (ss1, cx1)" by fastforce
  have "db_wf (snd (new_oid (db st)))" using assms(1) by (simp add: st_wf_def new_oid_wf)
  with assms(1) li have "st_wf (st\<lparr>db := snd (new_oid (db st)), store := ss1\<rparr>) cx1"
    by (auto simp: st_wf_def new_oid_def dest: passport_logIn_wf)
  with li assms(2) show ?thesis
    by (auto simp: handle_login_def new_oid_def intro: authenticate_local_wf)
qed

lemma handle_logout_wf:
  "st_wf st cx \<Longrightarrow> handle_logout cx st = (r, cx', st') \<Longrightarrow> st_wf st' cx'"
  by (auto simp: handle_logout_def st_wf_def split: prod.splits dest: passport_logOut_wf)

lemma google_verify_wf:
  "st_wf st cx \<Longrightarrow> google_verify pid st = (r, st') \<Longrightarrow> st_wf st' cx"
  using find_or_create_wf [of "db st" pid] find_or_create_creds_ok [of "db st" pid]
  by (auto simp: google_verify_def st_wf_def split: prod.splits)

lemma handle_google_callback_wf:
  assumes "st_wf st cx" and "handle_google_callback cb cx st = (r, cx', st')"
  shows "st_wf st' cx'"
proof (cases cb)
  case (GProfile pid)
  obtain res st1 where gv: "google_verify pid st = (res, st1)" by fastforce
  with assms(1) have wf1: "st_wf st1 cx" by (rule google_verify_wf)
  show ?thesis
  proof (cases res)
    case (Inl e)
    with assms(2) GProfile gv wf1 show ?thesis by (simp add: handle_google_callback_def)
  next
    case (Inr u)
    with assms(2) GProfile gv wf1 show ?thesis
      by (auto simp: handle_google_callback_def st_wf_def split: prod.splits dest: passport_logIn_wf)
  qed
qed (use assms in \<open>auto simp: handle_google_callback_def\<close>)

lemma route_wf:
  "st_wf st cx \<Longrightarrow> route kdf s rq cx st = (r, cx', st') \<Longrightarrow> st_wf st' cx'"
  by (cases rq)
    (auto simp: handle_secrets_def split: if_splits intro: handle_register_wf handle_login_wf handle_logout_wf
      handle_google_callback_wf)

lemma handle_wf:
  assumes "app_wf st" and "handle kdf s rq c st = (r, c', st')"
  shows "app_wf st'"
proof -
  obtain cx ss cx' st0 where ld: "session_load (store st) c = (cx, ss)"
    and rt: "route kdf s rq (passport_session cx) (st\<lparr>store := ss\<rparr>) = (r, cx', st0)"
    and st': "st' = st0\<lparr>store := session_commit cx cx' (store st0)\<rparr>"
    using handle_unfold [OF assms(2)] by metis
  from assms(1) ld have "st_wf (st\<lparr>store := ss\<rparr>) (passport_session cx)"
    by (auto simp: app_wf_def st_wf_def dest: session_load_wf)
  from this rt have "st_wf st0 cx'" by (rule route_wf)
  with st' show ?thesis by (simp add: st_wf_def app_wf_def session_commit_wf)
qed

subsection \<open>Reachable states\<close>

lemma reach_app_wf: "reach kdf st \<Longrightarrow> app_wf st"
proof (induction rule: reach.induct)
  case init
  show ?case by (rule app_wf_init)
next
  case (step st s rq c r c' st')
  then show ?case by (blast intro: handle_wf)
qed


lemma reach_sess_wf: "reach kdf st \<Longrightarrow> sess_wf (store st)"
  using reach_app_wf [of kdf st] by (simp add: app_wf_def)

lemma reach_step_sess_wf:
  "reach kdf st \<Longrightarrow> handle kdf s rq c st = (r, c', st') \<Longrightarrow> sess_wf (store st')"
  by (rule reach_sess_wf [OF reach.step])

end
