(* ===== verification/Abstract.thy ===== *)
theory Abstract
  imports App
begin

text \<open>
  The login-state machine of the specification (sections 4.3--4.6) as an
  abstract model of one browser, and its relation to the application. A browser
  is \<open>Anonymous\<close> or \<open>Authenticated\<close> with the identity its session carries;
  \<open>auth_of\<close> reads that state off the session store and the browser's cookie.
  \<open>spec_step\<close> is the transition the specification prescribes for each request:
  registration and log-in authenticate on success and change nothing on
  failure, the Google callback authenticates when find-or-create returns a
  user, logout makes the browser anonymous, and every other route leaves the
  state alone. The lemmas below show that \<open>handle\<close> implements \<open>spec_step\<close> on
  every request but a log-in that the strategy rejects.
\<close>

datatype auth_state = Anonymous | Authenticated payload

definition auth_of :: "session_store \<Rightarrow> sid option \<Rightarrow> auth_state" where
  "auth_of ss c = (case session_user ss c of None \<Rightarrow> Anonymous | Some p \<Rightarrow> Authenticated p)"

fun spec_step :: "kdf \<Rightarrow> string \<Rightarrow> request \<Rightarrow> db_state \<Rightarrow> auth_state \<Rightarrow> auth_state" where
  "spec_step kdf s (PostRegister n pw) d a =
     (case fst (register kdf s n pw d) of Inr u \<Rightarrow> Authenticated (serializeUser u) | Inl e \<Rightarrow> a)"
| "spec_step kdf s (PostLogin n pw) d a =
     (case local_verify kdf d n pw of AuthSuccess u \<Rightarrow> Authenticated (serializeUser u) | _ \<Rightarrow> a)"
| "spec_step kdf s GetLogout d a = Anonymous"
| "spec_step kdf s (GetAuthGoogleSecrets (GProfile g)) d a =
     (case fst (find_or_create g d) of Inr u \<Rightarrow> Authenticated (serializeUser u) | Inl e \<Rightarrow> a)"
| "spec_step kdf s rq d a = a"

subsection \<open>Requests that leave the browser's session alone\<close>

text \<open>
  When the route hands back the request's context and a store with the loaded
  sessions, the cookie and the sessions are those of the request.
\<close>

lemma handle_passive:
  assumes "handle kdf s rq c st = (r, c', st')"
    and "\<And>cx ss. \<exists>r0 st0. route kdf s rq cx (st\<lparr>store := ss\<rparr>) = (r0, cx, st0) \<and> store st0 = ss"
  shows "c' = c \<and> sessions (store st') = sessions (store st)"
proof -
  obtain cx ss where ld: "session_load (store st) c = (cx, ss)" by fastforce
  from assms(2) [of "passport_session cx" ss] obtain r0 st0
    where rt: "route kdf s rq (passport_session cx) (st\<lparr>store := ss\<rparr>) = (r0, passport_session cx, st0)"
      and ss: "store st0 = ss" by blast
  from handle_passive_eq [OF ld rt] assms(1) have "c' = c" "st' = st0" by auto
  with ss session_load_sessions [OF ld] show ?thesis by simp
qed

lemma auth_of_passive:
  "c' = c \<and> sessions ss' = sessions ss \<Longrightarrow> auth_of ss' c' = auth_of ss c"
  unfolding auth_of_def by (metis session_user_cong)

lemma route_register_Inl:
  "fst (register kdf s n pw (db st)) = Inl e \<Longrightarrow>
   \<exists>r0 st0. route kdf s (PostRegister n pw) cx st = (r0, cx, st0) \<and> store st0 = store st"
  by (auto simp: handle_register_def split: prod.splits)

lemma route_google_Inl:
  "fst (find_or_create g (db st)) = Inl e \<Longrightarrow>
   \<exists>r0 st0. route kdf s (GetAuthGoogleSecrets (GProfile g)) cx st = (r0, cx, st0) \<and> store st0 = store st"
  by (auto simp: handle_google_callback_def google_verify_def split: prod.splits)

subsection \<open>Requests that authenticate or log out\<close>

lemma auth_of_Some: "session_user ss c = Some p \<Longrightarrow> auth_of ss c = Authenticated p"
  by (simp add: auth_of_def)

lemma handle_GetLogout_auth:
  "sess_wf (store st) \<Longrightarrow> handle kdf s GetLogout c st = (r, c', st') \<Longrightarrow> auth_of (store st') c' = Anonymous"
  by (drule (1) handle_GetLogout) (auto simp: auth_of_def session_user_def)

subsection \<open>Refinement\<close>

text \<open>
  C16. The application implements the specification's login-state machine.
  In every reachable state, for every request other than a POST /login that
  the strategy rejects (claim C1 shows what happens then), the browser's
  login state after the request is the one \<open>spec_step\<close> prescribes from its
  state before it. The salt is a non-empty string, as every output of
  passport-local-mongoose's \<open>randomBytes\<close> hex salt is.
\<close>

theorem handle_refines_spec:
  assumes "reach kdf st" and "s \<noteq> []" and "handle kdf s rq c st = (r, c', st')"
    and "\<forall>n pw. rq = PostLogin n pw \<longrightarrow> (\<exists>u. local_verify kdf (db st) n pw = AuthSuccess u)"
  shows "auth_of (store st') c' = spec_step kdf s rq (db st) (auth_of (store st) c)"
proof -
  have sw: "sess_wf (store st)" and dw: "db_wf (db st)"
    using reach_app_wf [OF assms(1)] by (simp_all add: app_wf_def)
  have keep: "auth_of (store st') c' = auth_of (store st) c"
    if "\<And>cx ss. \<exists>r0 st0. route kdf s rq cx (st\<lparr>store := ss\<rparr>) = (r0, cx, st0) \<and> store st0 = ss"
    using handle_passive [OF assms(3) that] by (rule auth_of_passive)
  show ?thesis
  proof (cases rq)
    case (PostRegister n pw)
    obtain res d where reg: "register kdf s n pw (db st) = (res, d)" by fastforce
    show ?thesis
    proof (cases res)
      case (Inl e)
      have "auth_of (store st') c' = auth_of (store st) c"
      proof (rule keep)
        fix cx ss
        have "fst (register kdf s n pw (db (st\<lparr>store := ss\<rparr>))) = Inl e" using reg Inl by simp
        from route_register_Inl [OF this, of cx] PostRegister
        show "\<exists>r0 st0. route kdf s rq cx (st\<lparr>store := ss\<rparr>) = (r0, cx, st0) \<and> store st0 = ss" by simp
      qed
      with PostRegister reg Inl show ?thesis by simp
    next
      case (Inr u)
      from handle_PostRegister_Inr(2) [OF sw dw assms(2) reg [unfolded Inr]] assms(3) PostRegister
      have "auth_of (store st') c' = Authenticated (serializeUser u)" by (simp add: auth_of_Some)
      with PostRegister reg Inr show ?thesis by simp
    qed
  next
    case (PostLogin n pw)
    with assms(4) obtain u where lv: "local_verify kdf (db st) n pw = AuthSuccess u" by blast
    from handle_PostLogin [OF sw assms(3) [unfolded PostLogin]] lv
    have "auth_of (store st') c' = Authenticated (serializeUser u)" by (simp add: auth_of_Some)
    with PostLogin lv show ?thesis by simp
  next
    case GetLogout
    with handle_GetLogout_auth [OF sw] assms(3) show ?thesis by simp
  next
    case (GetAuthGoogleSecrets cb)
    show ?thesis
    proof (cases cb)
      case (GProfile g)
      obtain res d where fc: "find_or_create g (db st) = (res, d)" by fastforce
      show ?thesis
      proof (cases res)
        case (Inl e)
        have "auth_of (store st') c' = auth_of (store st) c"
        proof (rule keep)
          fix cx ss
          have "fst (find_or_create g (db (st\<lparr>store := ss\<rparr>))) = Inl e" using fc Inl by simp
          from route_google_Inl [OF this, of kdf s cx] GetAuthGoogleSecrets GProfile
          show "\<exists>r0 st0. route kdf s rq cx (st\<lparr>store := ss\<rparr>) = (r0, cx, st0) \<and> store st0 = ss" by simp
        qed
        with GetAuthGoogleSecrets GProfile fc Inl show ?thesis by simp
      next
        case (Inr u)
        from handle_google_profile(2) [OF sw assms(3) [unfolded GetAuthGoogleSecrets GProfile]] fc Inr
        have "auth_of (store st') c' = Authenticated (serializeUser u)" by (simp add: auth_of_Some)
        with GetAuthGoogleSecrets GProfile fc Inr show ?thesis by simp
      qed
    qed (use GetAuthGoogleSecrets in \<open>auto intro!: keep simp: handle_google_callback_def\<close>)
  qed (auto intro!: keep simp: handle_secrets_def)
qed

theorem handle_refines_spec_witness:
  "(case handle (\<lambda>s p. s @ p) ''ab'' (PostRegister ''alice'' ''pw'') None init_app of
      (_, c1, st1) \<Rightarrow> auth_of (store st1) c1 =
                       Authenticated \<lparr>p_id = 0, p_username = Some ''alice'', p_picture = None\<rparr>)"
proof -
  obtain r1 c1 st1 where h1: "handle (\<lambda>s p. s @ p) ''ab'' (PostRegister ''alice'' ''pw'') None init_app = (r1, c1, st1)"
    by (metis prod_cases3)
  have "\<forall>n pw. PostRegister ''alice'' ''pw'' = PostLogin n pw \<longrightarrow>
          (\<exists>u. local_verify (\<lambda>s p. s @ p) (db init_app) n pw = AuthSuccess u)" by simp
  from handle_refines_spec [OF reach.init _ h1 this]
  have "auth_of (store st1) c1 = spec_step (\<lambda>s p. s @ p) ''ab'' (PostRegister ''alice'' ''pw'') (db init_app)
          (auth_of (store init_app) None)" by simp
  then show ?thesis unfolding h1 prod.case
    by (simp add: register_eq init_app_def init_db_def find_by_username_def find_one_def
        unique_ok_def empty_doc_def serializeUser_def Let_def)
qed

end
