(* ===== verification/Race.thy ===== *)
theory Race
  imports App
begin

text \<open>
  Concurrent calls of \<open>User.findOrCreate\<close> (mongoose-findorcreate, called by the
  Google strategy's verify callback, src/app.js line 77). The call is two
  round trips to MongoDB: a \<open>findOne\<close> on the conditions, then, in its callback,
  the construction of a new document and its \<open>save\<close>. Node runs other requests'
  callbacks between the two, so calls for the same provider id (two tabs
  finishing the Google login at once) interleave. A call is a process with a
  program counter \<open>foc_pc\<close>; \<open>race_sched i\<close> runs one database operation of
  process \<open>i\<close>, and a schedule is the list of processes in the order they run.
  The sequential application (\<open>App\<close>) runs each call to its end, which is the
  schedule \<open>[i, i]\<close> (lemma \<open>race_sched_sequential\<close>).
\<close>

datatype foc_pc =
    FocStart string
  | FocLooked string "user option"
  | FocDone "error + user"

record race_state =
  rdb :: db_state
  procs :: "foc_pc list"

text \<open>The continuation of \<open>findOne\<close>: return the match, or build and save a new document.\<close>

definition foc_finish :: "string \<Rightarrow> user option \<Rightarrow> db_state \<Rightarrow> (error + user) \<times> db_state" where
  "foc_finish g r d =
     (case r of
        Some u \<Rightarrow> (Inr u, d)
      | None \<Rightarrow>
          (let (i, d1) = new_oid d; u = foc_conditions g i
           in (case save_doc u d1 of Inl e \<Rightarrow> (Inl e, d1) | Inr d2 \<Rightarrow> (Inr u, d2))))"

definition race_sched :: "nat \<Rightarrow> race_state \<Rightarrow> race_state" where
  "race_sched i rs =
     (if i < length (procs rs) then
        (case procs rs ! i of
           FocStart g \<Rightarrow> rs\<lparr>procs := (procs rs)[i := FocLooked g (find_by_googleId g (rdb rs))]\<rparr>
         | FocLooked g r \<Rightarrow>
             (let (res, d') = foc_finish g r (rdb rs)
              in \<lparr>rdb = d', procs = (procs rs)[i := FocDone res]\<rparr>)
         | FocDone res \<Rightarrow> rs)
      else rs)"

definition race_run :: "nat list \<Rightarrow> race_state \<Rightarrow> race_state" where
  "race_run sched rs = fold race_sched sched rs"

subsection \<open>The sequential call\<close>

lemma find_or_create_split:
  "find_or_create g d = foc_finish g (find_by_googleId g d) d"
  by (simp add: find_or_create_def foc_finish_def split: option.splits)

lemma race_sched_sequential:
  assumes "i < length (procs rs)" and "procs rs ! i = FocStart g"
  shows "race_run [i, i] rs =
           \<lparr>rdb = snd (find_or_create g (rdb rs)),
            procs = (procs rs)[i := FocDone (fst (find_or_create g (rdb rs)))]\<rparr>"
  using assms by (simp add: race_run_def race_sched_def find_or_create_split split: prod.splits)

subsection \<open>The store invariant under every interleaving\<close>

lemma foc_finish_wf:
  assumes "db_wf d"
  shows "db_wf (snd (foc_finish g r d))"
proof (cases r)
  case None
  let ?u = "foc_conditions g (next_oid d)"
  let ?d1 = "d\<lparr>next_oid := Suc (next_oid d)\<rparr>"
  have d1: "db_wf ?d1" using new_oid_wf [OF assms] by (simp add: new_oid_def)
  have "uid ?u < next_oid ?d1" by (simp add: foc_conditions_def empty_doc_def)
  with d1 None show ?thesis
    by (cases "save_doc ?u ?d1") (auto simp: foc_finish_def new_oid_def Let_def intro: save_doc_wf)
qed (simp add: foc_finish_def assms)

lemma race_sched_wf: "db_wf (rdb rs) \<Longrightarrow> db_wf (rdb (race_sched i rs))"
  using foc_finish_wf
  by (auto simp: race_sched_def split: foc_pc.splits prod.splits)
    (metis snd_conv)

lemma race_run_wf: "db_wf (rdb rs) \<Longrightarrow> db_wf (rdb (race_run sched rs))"
  unfolding race_run_def
  by (induction sched arbitrary: rs) (simp_all add: race_sched_wf)

subsection \<open>Two callbacks for one new provider id\<close>

text \<open>The first save of a new provider id succeeds when nothing stored collides with the new document.\<close>

lemma foc_finish_new:
  assumes "db_wf d" and "find_by_googleId g d = None" and "CHR ''$'' \<notin> set g"
    and "\<forall>v \<in> set (users d). username v \<noteq> None"
  shows "foc_finish g None d =
           (Inr (foc_conditions g (next_oid d)),
            d\<lparr>next_oid := Suc (next_oid d), users := users d @ [foc_conditions g (next_oid d)]\<rparr>)"
proof -
  have "next_oid d \<notin> uid ` set (users d)" using assms(1) by (auto simp: db_wf_def)
  moreover have "Some g \<notin> googleId ` set (users d)" using assms(2) by (auto simp: find_by_googleId_None)
  moreover have "None \<notin> username ` set (users d)" using assms(4) by auto
  ultimately show ?thesis using assms(3)
    by (simp add: foc_finish_def new_oid_def save_doc_def unique_ok_def foc_conditions_def empty_doc_def
        Let_def)
qed

lemma foc_finish_found: "foc_finish g (Some u) d = (Inr u, d)"
  by (simp add: foc_finish_def)

lemma find_by_googleId_snoc:
  "find_by_googleId g d = None \<Longrightarrow> googleId u = Some g \<Longrightarrow> users d' = users d @ [u] \<Longrightarrow>
   find_by_googleId g d' = Some u"
  by (simp add: find_by_googleId_def find_one_def find_snoc)

text \<open>
  C17. The specification's at-most-one-record-per-external-id invariant holds
  under every interleaving of concurrent find-or-create calls: from a store
  satisfying the unique indexes, whatever processes run in whatever order,
  at most one stored document has a given \<open>googleId\<close>. It is the unique index
  on \<open>googleId\<close> that guarantees it, not the find-then-save of the plugin.
\<close>

theorem race_at_most_one:
  assumes "db_wf (rdb rs)"
  shows "length (filter (\<lambda>u. googleId u = Some g) (users (rdb (race_run sched rs)))) \<le> 1"
proof -
  have "distinct (map googleId (users (rdb (race_run sched rs))))"
    using race_run_wf [OF assms] by (simp add: db_wf_def)
  then show ?thesis by (rule distinct_map_filter_le1)
qed

theorem race_at_most_one_witness:
  "db_wf init_db \<and>
   length (filter (\<lambda>u. googleId u = Some ''g-42'')
     (users (rdb (race_run [0, 1, 0, 1] \<lparr>rdb = init_db, procs = [FocStart ''g-42'', FocStart ''g-42'']\<rparr>)))) \<le> 1"
  using race_at_most_one [of "\<lparr>rdb = init_db, procs = [FocStart ''g-42'', FocStart ''g-42'']\<rparr>" "''g-42''" "[0, 1, 0, 1]"]
  by (simp add: db_wf_init)

text \<open>
  C18. Two callbacks for the same new provider id race, and the loser fails
  although its account now exists. If both look the id up before either
  saves (schedule 0, 1, 0, 1), the first creates the user and the second's
  save is refused with a duplicate key; the plugin does not retry, so that
  Google login answers 500. A retry would find the user; run one after the
  other (schedule 0, 0, 1, 1), both calls return it.
\<close>

theorem concurrent_google_login_race:
  assumes "db_wf d" and "find_by_googleId g d = None" and "CHR ''$'' \<notin> set g"
    and "\<forall>v \<in> set (users d). username v \<noteq> None"
  shows "procs (race_run [0, 1, 0, 1] \<lparr>rdb = d, procs = [FocStart g, FocStart g]\<rparr>) =
           [FocDone (Inr (foc_conditions g (next_oid d))), FocDone (Inl DuplicateKey)] \<and>
         find_by_googleId g (rdb (race_run [0, 1, 0, 1] \<lparr>rdb = d, procs = [FocStart g, FocStart g]\<rparr>)) =
           Some (foc_conditions g (next_oid d)) \<and>
         procs (race_run [0, 0, 1, 1] \<lparr>rdb = d, procs = [FocStart g, FocStart g]\<rparr>) =
           [FocDone (Inr (foc_conditions g (next_oid d))), FocDone (Inr (foc_conditions g (next_oid d)))]"
proof -
  let ?u = "foc_conditions g (next_oid d)"
  let ?d2 = "d\<lparr>next_oid := Suc (next_oid d), users := users d @ [?u]\<rparr>"
  note F = foc_finish_new [OF assms]
  have gu: "googleId ?u = Some g" using assms(3) by (simp add: foc_conditions_def)
  have fd2: "find_by_googleId g ?d2 = Some ?u"
    using find_by_googleId_snoc [OF assms(2) gu, of ?d2] by simp
  have dup: "foc_finish g None ?d2 = (Inl DuplicateKey, ?d2\<lparr>next_oid := Suc (Suc (next_oid d))\<rparr>)"
    using gu by (simp add: foc_finish_def new_oid_def save_doc_def unique_ok_def foc_conditions_def
        empty_doc_def Let_def)
  show ?thesis
    using assms(2) F fd2 dup find_by_googleId_snoc [OF assms(2) gu, of "?d2\<lparr>next_oid := Suc (Suc (next_oid d))\<rparr>"]
    by (simp add: race_run_def race_sched_def foc_finish_found)
qed

theorem concurrent_google_login_race_witness:
  "procs (race_run [0, 1, 0, 1] \<lparr>rdb = init_db, procs = [FocStart ''g-42'', FocStart ''g-42'']\<rparr>) =
     [FocDone (Inr (foc_conditions ''g-42'' 0)), FocDone (Inl DuplicateKey)]"
proof -
  have "db_wf init_db" "find_by_googleId ''g-42'' init_db = None" "CHR ''$'' \<notin> set ''g-42''"
    "\<forall>v \<in> set (users init_db). username v \<noteq> None"
    by (rule db_wf_init) (simp_all add: init_db_def find_by_googleId_def find_one_def)
  from concurrent_google_login_race [OF this] show ?thesis by (simp add: init_db_def)
qed

end
