(* ===== verification/Spec2Isabelle.thy ===== *)
theory Spec2Isabelle
  imports Abstract Race
begin

text \<open>
  \<^bold>\<open>Verification development of the secrets web application (src/app.js).\<close>

  \<^bold>\<open>The program.\<close> src/app.js is one Express server. Its users register and
  log in with a username and a password (passport-local through
  passport-local-mongoose) or with Google (passport-google-oauth20 and
  mongoose-findorcreate). A logged-in browser may see GET /secrets. Users live
  in the MongoDB collection \<open>users\<close> (lines 31--49). Sessions are
  express-session sessions in the default MemoryStore (lines 18--25); passport
  keeps the serialized user in them (lines 53--67). The parts interact only
  through these two stores and through the session cookie.

  \<^bold>\<open>The theories.\<close>
  \<^item> \<open>Prelude\<close>: identifiers as counters (\<open>oid\<close>, \<open>sid\<close>), the hash function as a
    parameter \<open>kdf salt password\<close>, the \<open>error\<close> datatype of every failure the
    code and its libraries report, and list lemmas on unique keys.
  \<^item> \<open>Store\<close>: the collection as a list of \<open>user\<close> records in insertion order
    (\<open>findOne\<close> returns the first match). \<open>save_doc\<close> is the insert with the
    three unique indexes (\<open>unique_ok\<close>). The schema's \<open>googleId\<close> and
    \<open>username\<close> indexes are non-sparse, so a missing field counts as the value
    \<open>None\<close>. \<open>find_or_create\<close> is \<open>User.findOrCreate\<close>: a \<open>findOne\<close>, then a
    separate insert. The invariant \<open>db_wf\<close> says the keys are distinct and the
    ObjectIds fresh; every operation preserves it. \<open>key_missing\<close> says every
    document lacks \<open>googleId\<close> or \<open>username\<close>; with \<open>db_wf\<close> it bounds the
    store to two documents.
  \<^item> \<open>Credential\<close>: passport-local-mongoose's \<open>setPassword\<close>
    (\<open>set_password\<close>), \<open>authenticate\<close> (\<open>authenticate_user\<close>,
    \<open>pl_authenticate\<close>) and \<open>register\<close>, and the local strategy
    \<open>local_verify\<close>. The lemmas show that a registered password verifies, a
    wrong one is refused (claim C7), and \<open>creds_ok\<close> (salt iff hash) is
    preserved.
  \<^item> \<open>Session\<close>: the session store (\<open>session_store\<close>), the per-request context
    (\<open>ctx\<close>), and express-session's rules: \<open>session_load\<close> at the start of a
    request, and at its end \<open>session_commit\<close> (save the session when it was
    modified, \<open>sess_modified\<close>; with \<open>saveUninitialized: false\<close> an
    unmodified new session is not stored) and \<open>set_cookie\<close> (send the id
    when the cookie names another one and the session was modified). It also
    holds passport's \<open>passport_session\<close>, \<open>passport_logIn\<close> (regenerate, then
    save) and \<open>passport_logOut\<close> (clear, save, regenerate). \<open>session_user\<close> is
    the abstraction: the user a cookie carries. The invariant \<open>sess_wf\<close> says
    no session id at or above the counter is stored.
  \<^item> \<open>App\<close>: one handler per route of lines 83--173 (\<open>handle_register\<close>,
    \<open>handle_login\<close>, \<open>handle_secrets\<close>, \<open>handle_logout\<close>,
    \<open>handle_google_callback\<close> with \<open>google_verify\<close>). \<open>route\<close> is the routing
    table. \<open>handle\<close> is one request through the pipeline: session load, then
    \<open>passport.session()\<close>, the route, then the end-of-response save and the
    cookie. Lemma \<open>handle_commit\<close> shows that the save is either a no-op or
    writes the emptied session of a log-out under its new id. The state \<open>app_state\<close> is the
    user store, the session store and the console log. Lemmas give each
    route's behaviour on every branch. \<open>app_wf\<close> is preserved by \<open>handle\<close>.
    \<open>reach kdf\<close> is the inductive set of states reachable from the empty
    stores by any sequence of requests with any cookies; its invariant is
    proved by rule induction.
  \<^item> \<open>Abstract\<close>: the specification's login-state machine for one browser
    (\<open>auth_state\<close>: \<open>Anonymous\<close> or \<open>Authenticated\<close>), the abstraction
    \<open>auth_of\<close> from the session store and a cookie, and the prescribed
    transition \<open>spec_step\<close>. It proves that \<open>handle\<close> refines the machine on
    every request except a rejected log-in (claim C16).
  \<^item> \<open>Race\<close>: \<open>findOrCreate\<close> as two database operations (\<open>findOne\<close>, then
    \<open>save\<close> in its callback), run by interleaved processes under an explicit
    schedule (\<open>race_sched\<close>, \<open>race_run\<close>). Running one call to its end is
    \<open>find_or_create\<close>. The store invariant holds under every schedule (C17), and
    one schedule makes a call fail that would succeed sequentially (C18).
  \<^item> \<open>Spec2Isabelle\<close> (this theory): the properties that span the parts. Each
    claim comes with a witness: a concrete run from the empty state, with the
    hash \<open>\<lambda>s p. s @ p\<close>, evaluated by \<open>simp\<close>. C7 is in \<open>Credential\<close>, C16 in
    \<open>Abstract\<close>, and C17 and C18 in \<open>Race\<close>.

  \<^bold>\<open>What the properties show.\<close>
  \<^item> Failed logins still log the browser in: POST /login calls \<open>req.login\<close> on
    the form's user before the password is checked (C1). Apart from that one
    request, the application follows the specification's login-state machine
    (C16).
  \<^item> GET /secrets renders exactly for a logged-in cookie (C2), and does so
    after a successful Google login (C19).
  \<^item> A session never carries a stored user's id unless it is that user's own
    session, so the C1 bug does not hand over a stored account's id (C20).
  \<^item> Registration then login round-trips (C3).
  \<^item> Logout destroys the session the cookie named and sends a new cookie
    naming a fresh, empty session (C6).
  \<^item> A wrong password is refused (C7), and every failed login with both
    fields filled in gets the same 401, so its response does not reveal
    whether the username exists (C14). Its timing may: the hash runs only for
    a known username, and timing is not modelled.
  \<^item> Google login is idempotent (C8).
  \<^item> Log-in issues a fresh session id, so session fixation fails (C10), and no
    request touches another browser's session (C13).
  \<^item> Submit discards the secret (C12).
  \<^item> A taken username is refused with no second record (C15).
  \<^item> The non-sparse unique indexes admit only one local account and only one
    Google account (C4, C9).
  \<^item> The store invariant holds in every reachable state (C5) and under every
    interleaving of concurrent find-or-create calls (C17). A concurrent
    callback for a new provider id can still fail, because there is no retry
    (C18).
  \<^item> A failed registration logs the plaintext password (C11).
  \<^item> The store never holds more than two users: one local and one Google
    account (C21).
  \<^item> A provider id containing \<open>$\<close> is stored without \<open>googleId\<close>, so it can
    log in at most once (C22).

  \<^bold>\<open>Bounds, fuel and termination.\<close> src/app.js has no loop and no
  recursion. Every operation of the model is a total, non-recursive function
  of the state, so no fuel is needed. Unbounded behaviour is the relation
  \<open>reach\<close>, over any number of requests, and \<open>race_run\<close>, a structural fold
  over any schedule. The ObjectId and session-id counters are unbounded
  naturals that only ever increase; the code relies on nothing about them
  but freshness. The one bound the program has on its data is C21.

  \<^bold>\<open>Not modelled.\<close>
  \<^item> pbkdf2 and the random generators: the hash is the parameter \<open>kdf\<close>, and
    each request receives its salt as an argument.
  \<^item> The OAuth2 exchange with Google: its outcome (denied, exchange error,
    profile id) is the argument of the callback request.
  \<^item> Template rendering (a page is its template name), static files, dotenv,
    the database connection and \<open>app.listen\<close>.
  \<^item> Session expiry, and timing: the specification leaves both to the session
    store and the host.
  \<^item> Concurrency of whole requests: \<open>App\<close> processes requests one at a time.
    Interleaving is modelled only for \<open>findOrCreate\<close>, the one operation whose
    database round trips another request can separate (\<open>Race\<close>).

  \<^bold>\<open>Plan.\<close>
  \<^item> Interleave the register path (\<open>findByUsername\<close>, then \<open>save\<close>) the same
    way as \<open>findOrCreate\<close>.
  \<^item> Extend the refinement to whole request sequences from one browser.
\<close>

section \<open>Authentication of the web application\<close>

text \<open>
  C1. A POST /login whose credentials the local strategy does not accept
  (unknown user, wrong password, empty field) is answered with a failure status,
  yet the session cookie it returns carries a logged-in user: the unsaved
  document built from the form, logged in by \<open>req.login\<close> before the password
  was checked. A following GET /secrets with that cookie renders the secrets page.
\<close>

theorem failed_login_grants_secrets:
  assumes "reach kdf st"
    and "\<forall>u. local_verify kdf (db st) n pw \<noteq> AuthSuccess u"
    and "handle kdf s (PostLogin n pw) c st = (r, c', st')"
  shows "r \<noteq> Redirect ''/secrets'' \<and>
         session_user (store st') c' =
           Some \<lparr>p_id = next_oid (db st), p_username = Some n, p_picture = None\<rparr> \<and>
         fst (handle kdf s' GetSecrets c' st') = Render ''secrets.ejs''"
proof -
  have sw: "sess_wf (store st)" using reach_app_wf [OF assms(1)] by (simp add: app_wf_def)
  note L = handle_PostLogin [OF sw assms(3)]
  have su: "session_user (store st') c' =
              Some \<lparr>p_id = next_oid (db st), p_username = Some n, p_picture = None\<rparr>"
    and r: "r \<noteq> Redirect ''/secrets''"
    using L assms(2) by (cases "local_verify kdf (db st) n pw"; simp)+
  have "reach kdf st'" using assms(1,3) by (rule reach.step)
  then have "sess_wf (store st')" by (auto dest: reach_app_wf simp: app_wf_def)
  then have "handle kdf s' GetSecrets c' st' =
      (if session_user (store st') c' \<noteq> None then Render ''secrets.ejs'' else Redirect ''/login'',
       c', st'\<lparr>store := snd (session_load (store st') c')\<rparr>)"
    by (rule handle_GetSecrets_eq)
  with su r show ?thesis by simp
qed

theorem failed_login_grants_secrets_witness:
  "(case handle (\<lambda>s p. s @ p) ''ab'' (PostLogin ''mallory'' ''x'') None init_app of
      (r, c', st') \<Rightarrow>
        r \<noteq> Redirect ''/secrets'' \<and>
        session_user (store st') c' = Some \<lparr>p_id = 0, p_username = Some ''mallory'', p_picture = None\<rparr> \<and>
        fst (handle (\<lambda>s p. s @ p) ''cd'' GetSecrets c' st') = Render ''secrets.ejs'')"
proof -
  obtain r c' st' where h: "handle (\<lambda>s p. s @ p) ''ab'' (PostLogin ''mallory'' ''x'') None init_app = (r, c', st')"
    by (metis prod_cases3)
  have nv: "\<forall>u. local_verify (\<lambda>s p. s @ p) (db init_app) ''mallory'' ''x'' \<noteq> AuthSuccess u"
    by (simp add: run_simps)
  have "next_oid (db init_app) = 0" by (simp add: init_app_def init_db_def)
  with failed_login_grants_secrets [OF reach.init nv h, of "''cd''"] h show ?thesis by simp
qed

text \<open>
  C2. GET /secrets renders the secrets page exactly when the request's cookie
  names a stored session that holds a user, and redirects to /login otherwise.
  It changes neither the user store, nor the stored sessions, nor the cookie,
  nor the console.
\<close>

theorem secrets_gate:
  assumes "reach kdf st" and "handle kdf s GetSecrets c st = (r, c', st')"
  shows "r = (if session_user (store st) c \<noteq> None then Render ''secrets.ejs'' else Redirect ''/login'') \<and>
         c' = c \<and> db st' = db st \<and> sessions (store st') = sessions (store st) \<and> console st' = console st"
proof -
  have "sess_wf (store st)" using reach_app_wf [OF assms(1)] by (simp add: app_wf_def)
  from handle_GetSecrets_eq [OF this, of kdf s c] assms(2)
  have eq: "r = (if session_user (store st) c \<noteq> None then Render ''secrets.ejs'' else Redirect ''/login'')"
    "c' = c" "st' = st\<lparr>store := snd (session_load (store st) c)\<rparr>" by auto
  obtain cx ss where "session_load (store st) c = (cx, ss)" by fastforce
  with eq show ?thesis by (auto dest: session_load_sessions)
qed

theorem secrets_gate_witness:
  "(case handle (\<lambda>s p. s @ p) ''ab'' GetSecrets None init_app of
      (r, c', st') \<Rightarrow> r = Redirect ''/login'' \<and> c' = None \<and> db st' = db init_app)"
proof -
  obtain r c' st' where h: "handle (\<lambda>s p. s @ p) ''ab'' GetSecrets None init_app = (r, c', st')"
    by (metis prod_cases3)
  have "session_user (store init_app) None = None" by (simp add: session_user_def)
  with secrets_gate [OF reach.init h] h show ?thesis by simp
qed

text \<open>
  C3. Registration followed by login. From any reachable state, registering a
  free non-empty username with a non-empty password (with a non-empty salt, and
  while every stored user has a \<open>googleId\<close>) redirects to /secrets with a session
  for the new user; a later POST /login with the same credentials, from any
  cookie, also redirects to /secrets with a session for that same user.
\<close>

theorem register_then_login:
  assumes "reach kdf st" and "s \<noteq> []" and "n \<noteq> []" and "pw \<noteq> []"
    and "find_by_username n (db st) = None"
    and "\<forall>v \<in> set (users (db st)). googleId v \<noteq> None"
    and "handle kdf s (PostRegister n pw) c st = (r1, c1, st1)"
    and "handle kdf s2 (PostLogin n pw) c2 st1 = (r2, c2', st2)"
  shows "r1 = Redirect ''/secrets'' \<and> r2 = Redirect ''/secrets'' \<and>
         session_user (store st1) c1 = Some \<lparr>p_id = next_oid (db st), p_username = Some n, p_picture = None\<rparr> \<and>
         session_user (store st2) c2' = Some \<lparr>p_id = next_oid (db st), p_username = Some n, p_picture = None\<rparr>"
proof -
  have wf: "db_wf (db st)" using reach_app_wf [OF assms(1)] by (simp add: app_wf_def)
  define u where "u = (empty_doc (next_oid (db st)))\<lparr>username := Some n, salt := Some s, hash := Some (kdf s pw)\<rparr>"
  define d where "d = \<lparr>users = users (db st) @ [u], next_oid = Suc (next_oid (db st))\<rparr>"
  have reg: "register kdf s n pw (db st) = (Inr u, d)"
    using register_success [OF wf assms(3,4,5,6), of kdf s] by (simp add: u_def d_def Let_def)
  note R = handle_PostRegister_Inr [OF reach_sess_wf [OF assms(1)] wf assms(2) reg assms(7)]
  have lv: "local_verify kdf (db st1) n pw = AuthSuccess u"
    using register_local_verify [OF wf assms(2) reg] R(3) by simp
  note L = handle_PostLogin [OF reach_step_sess_wf [OF assms(1,7)] assms(8)]
  have su: "serializeUser u = \<lparr>p_id = next_oid (db st), p_username = Some n, p_picture = None\<rparr>"
    by (simp add: u_def serializeUser_def empty_doc_def)
  show ?thesis using R L lv su by simp
qed

theorem register_then_login_witness:
  "(case handle (\<lambda>s p. s @ p) ''ab'' (PostRegister ''alice'' ''pw'') None init_app of
      (r1, c1, st1) \<Rightarrow>
        (case handle (\<lambda>s p. s @ p) ''cd'' (PostLogin ''alice'' ''pw'') None st1 of
           (r2, c2', st2) \<Rightarrow>
             r1 = Redirect ''/secrets'' \<and> r2 = Redirect ''/secrets'' \<and>
             session_user (store st2) c2' = Some \<lparr>p_id = 0, p_username = Some ''alice'', p_picture = None\<rparr>))"
proof -
  obtain r1 c1 st1 where h1: "handle (\<lambda>s p. s @ p) ''ab'' (PostRegister ''alice'' ''pw'') None init_app = (r1, c1, st1)"
    by (metis prod_cases3)
  obtain r2 c2' st2 where h2: "handle (\<lambda>s p. s @ p) ''cd'' (PostLogin ''alice'' ''pw'') None st1 = (r2, c2', st2)"
    by (metis prod_cases3)
  have hyp: "find_by_username ''alice'' (db init_app) = None"
    "\<forall>v \<in> set (users (db init_app)). googleId v \<noteq> None" "next_oid (db init_app) = 0"
    by (simp_all add: run_simps)
  from register_then_login [OF reach.init _ _ _ hyp(1,2) h1 h2] hyp(3) h1 h2 show ?thesis by simp
qed

text \<open>
  C4. Only one local account can ever exist. The schema's unique indexes on
  \<open>googleId\<close> and \<open>username\<close> are not sparse, so a document without \<open>googleId\<close>
  occupies the index's \<open>null\<close> entry. Once any such document is stored (every
  locally registered user is one), every POST /register fails with a duplicate
  key: it redirects to /register, stores nothing, and leaves the cookie and the
  identity it carries as they were. With a non-empty, untaken username and a
  non-empty password the error it logs is MongoDB's duplicate key (E11000).
\<close>

theorem second_local_account_refused:
  assumes "reach kdf st" and "v \<in> set (users (db st))" and "googleId v = None"
    and "handle kdf s (PostRegister n pw) c st = (r, c', st')"
  shows "r = Redirect ''/register'' \<and> users (db st') = users (db st) \<and> c' = c \<and>
         session_user (store st') c' = session_user (store st) c \<and>
         (n \<noteq> [] \<and> pw \<noteq> [] \<and> find_by_username n (db st) = None \<longrightarrow>
            console st' = console st @ [LogError DuplicateKey, LogText pw])"
proof -
  have wf: "sess_wf (store st)" using reach_app_wf [OF assms(1)] by (simp add: app_wf_def)
  define e where "e = (if n = [] then MissingUsernameError
    else if find_by_username n (db st) \<noteq> None then UserExistsError
    else if pw = [] then MissingPasswordError else DuplicateKey)"
  have reg: "register kdf s n pw (db st) = (Inl e, (db st)\<lparr>next_oid := Suc (next_oid (db st))\<rparr>)"
    using register_null_googleId [OF assms(2,3)] by (simp add: e_def)
  from handle_PostRegister_Inl [OF wf reg, of c] assms(4)
  have eq: "r = Redirect ''/register''" "c' = c"
    "st' = st\<lparr>db := (db st)\<lparr>next_oid := Suc (next_oid (db st))\<rparr>, store := snd (session_load (store st) c),
              console := console st @ [LogError e, LogText pw]\<rparr>" by auto
  obtain cx ss where "session_load (store st) c = (cx, ss)" by fastforce
  then have "sessions (snd (session_load (store st) c)) = sessions (store st)"
    by (auto dest: session_load_sessions)
  with eq(3) have "sessions (store st') = sessions (store st)" by simp
  then have "session_user (store st') c = session_user (store st) c" by (rule session_user_cong)
  with eq show ?thesis by (simp add: e_def)
qed

theorem second_local_account_refused_witness:
  "(case handle (\<lambda>s p. s @ p) ''ab'' (PostRegister ''alice'' ''pw'') None init_app of
      (_, _, st1) \<Rightarrow>
        (case handle (\<lambda>s p. s @ p) ''cd'' (PostRegister ''bob'' ''pw2'') None st1 of
           (r, c', st2) \<Rightarrow>
             r = Redirect ''/register'' \<and> users (db st2) = users (db st1) \<and> users (db st1) \<noteq> [] \<and>
             console st2 = console st1 @ [LogError DuplicateKey, LogText ''pw2'']))"
proof -
  obtain r1 c1 st1 where h1: "handle (\<lambda>s p. s @ p) ''ab'' (PostRegister ''alice'' ''pw'') None init_app = (r1, c1, st1)"
    by (metis prod_cases3)
  obtain r c' st2 where h2: "handle (\<lambda>s p. s @ p) ''cd'' (PostRegister ''bob'' ''pw2'') None st1 = (r, c', st2)"
    by (metis prod_cases3)
  have re: "reach (\<lambda>s p. s @ p) st1" using reach.init h1 by (rule reach.step)
  have us: "users (db st1) = [\<lparr>uid = 0, username = Some ''alice'', googleId = None, password = None,
                               salt = Some ''ab'', hash = Some ''abpw''\<rparr>]"
    using h1 by (auto simp add: run_simps)
  then have "hd (users (db st1)) \<in> set (users (db st1))" "googleId (hd (users (db st1))) = None"
    "find_by_username ''bob'' (db st1) = None"
    by (simp_all add: find_by_username_def find_one_def)
  from second_local_account_refused [OF re this(1,2) h2] this(3) h1 h2 us show ?thesis by simp
qed

text \<open>
  C5. In every reachable state the user store keeps the schema's unique
  indexes as MongoDB enforces them: at most one document per \<open>googleId\<close> value
  and per \<open>username\<close> value, a missing value (\<open>None\<close>, indexed as \<open>null\<close>)
  included; and every stored user has a salt exactly when it has a hash.
\<close>

theorem reachable_unique_keys:
  assumes "reach kdf st"
  shows "(\<forall>k. length (filter (\<lambda>u. googleId u = k) (users (db st))) \<le> 1) \<and>
         (\<forall>k. length (filter (\<lambda>u. username u = k) (users (db st))) \<le> 1) \<and>
         (\<forall>u \<in> set (users (db st)). (salt u = None) = (hash u = None))"
proof -
  have "db_wf (db st)" and "creds_ok (db st)"
    using reach_app_wf [OF assms] by (simp_all add: app_wf_def)
  then show ?thesis
    using distinct_map_filter_le1 [of googleId "users (db st)"]
      distinct_map_filter_le1 [of username "users (db st)"]
    by (auto simp: db_wf_def creds_ok_def)
qed

theorem reachable_unique_keys_witness:
  "(case handle (\<lambda>s p. s @ p) ''ab'' (PostRegister ''alice'' ''pw'') None init_app of
      (_, _, st1) \<Rightarrow> length (filter (\<lambda>u. googleId u = None) (users (db st1))) \<le> 1 \<and>
                     users (db st1) \<noteq> [])"
proof -
  obtain r1 c1 st1 where h1: "handle (\<lambda>s p. s @ p) ''ab'' (PostRegister ''alice'' ''pw'') None init_app = (r1, c1, st1)"
    by (metis prod_cases3)
  have re: "reach (\<lambda>s p. s @ p) st1" using reach.init h1 by (rule reach.step)
  have "users (db st1) \<noteq> []" using h1 by (auto simp add: run_simps)
  with reachable_unique_keys [OF re] show ?thesis unfolding h1 prod.case by blast
qed

text \<open>
  C6. GET /logout never fails and ends the session. It redirects to /
  whether or not the browser was logged in. The stored session that the
  request's cookie named is destroyed. passport regenerates the session and
  express-session saves the new, empty one at the end of the response and
  sends its id: the browser's new cookie names a session id not issued
  before the request, under which an empty session is stored, so the cookie
  carries no user (a following GET /secrets redirects to /login). The user
  store and the console are untouched.
\<close>

theorem logout_ends_session:
  assumes "reach kdf st" and "handle kdf s GetLogout c st = (r, c', st')"
  shows "r = Redirect ''/'' \<and> db st' = db st \<and> console st' = console st \<and>
         (\<exists>k. c' = Some k \<and> next_sid (store st) \<le> k \<and> sessions (store st') k = Some None) \<and>
         (\<forall>j. c = Some j \<longrightarrow> sessions (store st) j \<noteq> None \<longrightarrow> sessions (store st') j = None) \<and>
         session_user (store st') c' = None"
proof -
  have "sess_wf (store st)" using reach_app_wf [OF assms(1)] by (simp add: app_wf_def)
  note L = handle_GetLogout [OF this assms(2)]
  then have "session_user (store st') c' = None" by (auto simp: session_user_def)
  with L show ?thesis by blast
qed

theorem logout_ends_session_witness:
  "(case handle (\<lambda>s p. s @ p) ''ab'' (PostRegister ''alice'' ''pw'') None init_app of
      (_, c1, st1) \<Rightarrow>
        (case handle (\<lambda>s p. s @ p) ''cd'' GetLogout c1 st1 of
           (r, c', st2) \<Rightarrow>
             c1 = Some 1 \<and> session_user (store st1) c1 \<noteq> None \<and> r = Redirect ''/'' \<and>
             sessions (store st2) 1 = None \<and> c' \<noteq> c1 \<and> c' \<noteq> None \<and>
             session_user (store st2) c' = None))"
proof -
  obtain r1 c1 st1 where h1: "handle (\<lambda>s p. s @ p) ''ab'' (PostRegister ''alice'' ''pw'') None init_app = (r1, c1, st1)"
    by (metis prod_cases3)
  obtain r c' st2 where h2: "handle (\<lambda>s p. s @ p) ''cd'' GetLogout c1 st1 = (r, c', st2)"
    by (metis prod_cases3)
  have re: "reach (\<lambda>s p. s @ p) st1" using reach.init h1 by (rule reach.step)
  have c1: "c1 = Some 1" and s1: "session_user (store st1) c1 \<noteq> None" and n1: "next_sid (store st1) = 2"
    and d1: "sessions (store st1) 1 \<noteq> None"
    using h1 by (auto simp add: run_simps)
  from logout_ends_session [OF re h2] c1 n1 d1
  have "r = Redirect ''/''" "sessions (store st2) 1 = None" "c' \<noteq> c1" "c' \<noteq> None"
    "session_user (store st2) c' = None" by auto
  with c1 s1 show ?thesis unfolding h1 h2 prod.case by blast
qed

text \<open>
  C8. Google login is idempotent in the provider id (the spec's example:
  callback with id \<open>g-42\<close> twice). If a callback with profile id \<open>g\<close> (without
  a \<open>$\<close>) logs the browser in, a second callback with the same id, from any
  cookie, also redirects to /secrets, stores nothing new, and logs in the
  same user; exactly one stored document then has that \<open>googleId\<close>.
\<close>

theorem google_login_idempotent:
  assumes "reach kdf st" and "CHR ''$'' \<notin> set g"
    and "handle kdf s (GetAuthGoogleSecrets (GProfile g)) c1 st = (r1, c1', st1)"
    and "r1 = Redirect ''/secrets''"
    and "handle kdf s2 (GetAuthGoogleSecrets (GProfile g)) c2 st1 = (r2, c2', st2)"
  shows "r2 = Redirect ''/secrets'' \<and> users (db st2) = users (db st1) \<and>
         session_user (store st2) c2' = session_user (store st1) c1' \<and>
         length (filter (\<lambda>u. googleId u = Some g) (users (db st2))) = 1"
proof -
  have wf: "db_wf (db st)" using reach_app_wf [OF assms(1)] by (simp add: app_wf_def)
  note G1 = handle_google_profile [OF reach_sess_wf [OF assms(1)] assms(3)]
  obtain res d where fc: "find_or_create g (db st) = (res, d)" by fastforce
  from G1(2) fc assms(4) obtain u where res: "res = Inr u"
    and su1: "session_user (store st1) c1' = Some (serializeUser u)"
    by (cases res) auto
  from G1(1) fc have d1: "db st1 = d" by simp
  note A = find_or_create_again [OF wf assms(2) fc [unfolded res]]
  note G2 = handle_google_profile [OF reach_step_sess_wf [OF assms(1,3)] assms(5)]
  from A d1 have fc2: "find_or_create g (db st1) = (Inr u, db st1)" by simp
  from G2 fc2 su1 A d1 show ?thesis by simp
qed

theorem google_login_idempotent_witness:
  "(case handle (\<lambda>s p. s @ p) ''ab'' (GetAuthGoogleSecrets (GProfile ''g-42'')) None init_app of
      (r1, c1', st1) \<Rightarrow>
        (case handle (\<lambda>s p. s @ p) ''cd'' (GetAuthGoogleSecrets (GProfile ''g-42'')) None st1 of
           (r2, c2', st2) \<Rightarrow>
             r1 = Redirect ''/secrets'' \<and> r2 = Redirect ''/secrets'' \<and>
             length (filter (\<lambda>u. googleId u = Some ''g-42'') (users (db st2))) = 1))"
proof -
  obtain r1 c1' st1 where h1: "handle (\<lambda>s p. s @ p) ''ab'' (GetAuthGoogleSecrets (GProfile ''g-42'')) None init_app = (r1, c1', st1)"
    by (metis prod_cases3)
  obtain r2 c2' st2 where h2: "handle (\<lambda>s p. s @ p) ''cd'' (GetAuthGoogleSecrets (GProfile ''g-42'')) None st1 = (r2, c2', st2)"
    by (metis prod_cases3)
  have r1: "r1 = Redirect ''/secrets''" using h1 by (auto simp add: run_simps)
  have "CHR ''$'' \<notin> set ''g-42''" by simp
  from google_login_idempotent [OF reach.init this h1 r1 h2] r1 show ?thesis
    unfolding h1 h2 prod.case by blast
qed

text \<open>
  C9. Only one Google account can ever exist. The document findOrCreate builds
  for a new provider id has no \<open>username\<close>; once a document without
  \<open>username\<close> is stored (every Google user is one), the callback for any other
  provider id fails with a duplicate key on the \<open>null\<close> username entry: the
  response is 500 and nothing is stored.
\<close>

theorem second_google_account_refused:
  assumes "reach kdf st" and "v \<in> set (users (db st))" and "username v = None"
    and "find_by_googleId g (db st) = None"
    and "handle kdf s (GetAuthGoogleSecrets (GProfile g)) c st = (r, c', st')"
  shows "r = Status 500 \<and> users (db st') = users (db st)"
proof -
  note F = find_or_create_null_username [OF assms(2,3,4)]
  note G = handle_google_profile [OF reach_sess_wf [OF assms(1)] assms(5)]
  from G F show ?thesis by simp
qed

theorem second_google_account_refused_witness:
  "(case handle (\<lambda>s p. s @ p) ''ab'' (GetAuthGoogleSecrets (GProfile ''g-1'')) None init_app of
      (_, _, st1) \<Rightarrow>
        (case handle (\<lambda>s p. s @ p) ''cd'' (GetAuthGoogleSecrets (GProfile ''g-2'')) None st1 of
           (r, c', st2) \<Rightarrow> r = Status 500 \<and> users (db st2) = users (db st1) \<and> length (users (db st1)) = 1))"
proof -
  obtain r1 c1 st1 where h1: "handle (\<lambda>s p. s @ p) ''ab'' (GetAuthGoogleSecrets (GProfile ''g-1'')) None init_app = (r1, c1, st1)"
    by (metis prod_cases3)
  obtain r c' st2 where h2: "handle (\<lambda>s p. s @ p) ''cd'' (GetAuthGoogleSecrets (GProfile ''g-2'')) None st1 = (r, c', st2)"
    by (metis prod_cases3)
  have re: "reach (\<lambda>s p. s @ p) st1" using reach.init h1 by (rule reach.step)
  have us: "users (db st1) = [\<lparr>uid = 0, username = None, googleId = Some ''g-1'', password = None,
                               salt = None, hash = None\<rparr>]"
    using h1 by (auto simp add: run_simps)
  then have "hd (users (db st1)) \<in> set (users (db st1))" "username (hd (users (db st1))) = None"
    "find_by_googleId ''g-2'' (db st1) = None"
    by (simp_all add: find_by_googleId_def find_one_def)
  from second_google_account_refused [OF re this h2] us show ?thesis
    unfolding h1 h2 prod.case by simp
qed

text \<open>
  C10. Log-in protects against session fixation: after POST /login the
  browser's cookie names a session id not issued before the request, and the
  stored session the incoming cookie named, if any, is destroyed.
\<close>

theorem login_fresh_session:
  assumes "reach kdf st" and "handle kdf s (PostLogin n pw) c st = (r, c', st')"
  shows "(\<exists>k. c' = Some k \<and> next_sid (store st) \<le> k) \<and>
         (\<forall>j. c = Some j \<longrightarrow> sessions (store st) j \<noteq> None \<longrightarrow> sessions (store st') j = None)"
proof -
  have "sess_wf (store st)" using reach_app_wf [OF assms(1)] by (simp add: app_wf_def)
  from handle_PostLogin_ids [OF this assms(2)] show ?thesis .
qed

theorem login_fresh_session_witness:
  "(case handle (\<lambda>s p. s @ p) ''ab'' (PostRegister ''alice'' ''pw'') None init_app of
      (_, c1, st1) \<Rightarrow>
        (case handle (\<lambda>s p. s @ p) ''cd'' (PostLogin ''alice'' ''pw'') c1 st1 of
           (r, c', st2) \<Rightarrow> c1 = Some 1 \<and> sessions (store st1) 1 \<noteq> None \<and>
                           sessions (store st2) 1 = None \<and> c' \<noteq> c1))"
proof -
  obtain r1 c1 st1 where h1: "handle (\<lambda>s p. s @ p) ''ab'' (PostRegister ''alice'' ''pw'') None init_app = (r1, c1, st1)"
    by (metis prod_cases3)
  obtain r c' st2 where h2: "handle (\<lambda>s p. s @ p) ''cd'' (PostLogin ''alice'' ''pw'') c1 st1 = (r, c', st2)"
    by (metis prod_cases3)
  have re: "reach (\<lambda>s p. s @ p) st1" using reach.init h1 by (rule reach.step)
  have c1: "c1 = Some 1" and s1: "sessions (store st1) 1 \<noteq> None" and n1: "next_sid (store st1) = 2"
    using h1 by (auto simp add: run_simps)
  from login_fresh_session [OF re h2] c1 s1 n1 have "sessions (store st2) 1 = None" "c' \<noteq> c1"
    by auto
  with c1 s1 show ?thesis unfolding h1 h2 prod.case by blast
qed

text \<open>
  C11. A failed registration writes the plaintext password to the console:
  whatever the error (missing field, existing user, duplicate key), POST
  /register redirects to /register and appends the error and then the
  submitted password to the log.
\<close>

theorem register_failure_logs_password:
  assumes "reach kdf st" and "fst (register kdf s n pw (db st)) = Inl e"
    and "handle kdf s (PostRegister n pw) c st = (r, c', st')"
  shows "r = Redirect ''/register'' \<and> c' = c \<and> console st' = console st @ [LogError e, LogText pw]"
proof -
  have wf: "sess_wf (store st)" using reach_app_wf [OF assms(1)] by (simp add: app_wf_def)
  obtain d where reg: "register kdf s n pw (db st) = (Inl e, d)"
    using assms(2) by (metis prod.collapse)
  from handle_PostRegister_Inl [OF wf reg, of c] assms(3) show ?thesis by auto
qed

theorem register_failure_logs_password_witness:
  "(case handle (\<lambda>s p. s @ p) ''ab'' (PostRegister [] ''hunter2'') None init_app of
      (r, c', st') \<Rightarrow> r = Redirect ''/register'' \<and> LogText ''hunter2'' \<in> set (console st'))"
proof -
  obtain r c' st' where h: "handle (\<lambda>s p. s @ p) ''ab'' (PostRegister [] ''hunter2'') None init_app = (r, c', st')"
    by (metis prod_cases3)
  have "fst (register (\<lambda>s p. s @ p) ''ab'' [] ''hunter2'' (db init_app)) = Inl MissingUsernameError"
    by (simp add: register_eq Let_def)
  from register_failure_logs_password [OF reach.init this h] show ?thesis
    unfolding h prod.case by simp
qed

text \<open>
  C12. POST /submit accepts the secret and discards it: it redirects to /
  and changes neither the user store, nor the sessions, nor the cookie, nor
  the log.
\<close>

theorem submit_discards_secret:
  assumes "reach kdf st" and "handle kdf s (PostSubmit x) c st = (r, c', st')"
  shows "r = Redirect ''/'' \<and> c' = c \<and> db st' = db st \<and> sessions (store st') = sessions (store st) \<and>
         console st' = console st"
proof -
  have "sess_wf (store st)" using reach_app_wf [OF assms(1)] by (simp add: app_wf_def)
  from handle_PostSubmit [OF this assms(2)] show ?thesis .
qed

theorem submit_discards_secret_witness:
  "(case handle (\<lambda>s p. s @ p) ''ab'' (PostSubmit ''my secret'') None init_app of
      (r, c', st') \<Rightarrow> r = Redirect ''/'' \<and> db st' = db init_app)"
proof -
  obtain r c' st' where h: "handle (\<lambda>s p. s @ p) ''ab'' (PostSubmit ''my secret'') None init_app = (r, c', st')"
    by (metis prod_cases3)
  from submit_discards_secret [OF reach.init h] show ?thesis unfolding h prod.case by blast
qed

text \<open>
  C13. Sessions are isolated: a request changes no session but the one its
  own cookie names. Every session id issued before the request, other than
  the cookie's, keeps its stored session, whatever the request.
\<close>

theorem session_isolation:
  assumes "handle kdf s rq c st = (r, c', st')" and "j < next_sid (store st)" and "c \<noteq> Some j"
  shows "sessions (store st') j = sessions (store st) j"
proof -
  obtain cx ss cx' st0 where ld: "session_load (store st) c = (cx, ss)"
    and rt: "route kdf s rq (passport_session cx) (st\<lparr>store := ss\<rparr>) = (r, cx', st0)"
    and cm: "st' = st0 \<or> (c_data cx' = None \<and> next_sid ss \<le> c_sid cx' \<and>
           st' = st0\<lparr>store := (store st0)\<lparr>sessions := (sessions (store st0))(c_sid cx' \<mapsto> None)\<rparr>\<rparr>)"
    using handle_commit [OF assms(1)] by metis
  note L = session_load_frame [OF ld, of "c_sid cx"]
  have "sess_frame (c_sid cx) ss (store st0)"
    using route_frame [OF rt] by (simp add: passport_session_def)
  with L have F: "sess_frame (c_sid cx) (store st) (store st0)" by (auto intro: sess_frame_trans)
  from L assms(2,3) have "j \<noteq> c_sid cx" by auto
  with F assms(2) have "sessions (store st0) j = sessions (store st) j" by (simp add: sess_frame_def)
  moreover from L assms(2) have "j < next_sid ss" by (auto simp: sess_frame_def)
  ultimately show ?thesis using cm by auto
qed

theorem session_isolation_witness:
  "(case handle (\<lambda>s p. s @ p) ''ab'' (PostRegister ''alice'' ''pw'') None init_app of
      (_, c1, st1) \<Rightarrow>
        (case handle (\<lambda>s p. s @ p) ''cd'' GetLogout None st1 of
           (_, _, st2) \<Rightarrow> c1 = Some 1 \<and> sessions (store st2) 1 = sessions (store st1) 1))"
proof -
  obtain r1 c1 st1 where h1: "handle (\<lambda>s p. s @ p) ''ab'' (PostRegister ''alice'' ''pw'') None init_app = (r1, c1, st1)"
    by (metis prod_cases3)
  obtain r c' st2 where h2: "handle (\<lambda>s p. s @ p) ''cd'' GetLogout None st1 = (r, c', st2)"
    by (metis prod_cases3)
  have c1: "c1 = Some 1" and n1: "1 < next_sid (store st1)" using h1 by (auto simp add: run_simps)
  have "None \<noteq> Some (1::nat)" by simp
  from session_isolation [OF h2 n1 this] c1 show ?thesis unfolding h1 h2 prod.case by simp
qed

text \<open>
  C14. A failed login does not tell an unknown username from a wrong
  password. In every reachable state, a POST /login with both fields filled
  in that the strategy does not accept is answered with the same status 401,
  whether or not the name is registered. This is a statement about the
  response only: the hash is computed only for a registered name, and
  timing is not modelled.
\<close>

theorem failed_login_uniform:
  assumes "reach kdf st" and "n \<noteq> []" and "pw \<noteq> []"
    and "\<forall>u. local_verify kdf (db st) n pw \<noteq> AuthSuccess u"
    and "handle kdf s (PostLogin n pw) c st = (r, c', st')"
  shows "r = Status 401"
proof -
  have "creds_ok (db st)" and sw: "sess_wf (store st)"
    using reach_app_wf [OF assms(1)] by (simp_all add: app_wf_def)
  with assms(2,3,4) have "local_verify kdf (db st) n pw = AuthFail 401"
    using local_verify_cases by blast
  with handle_PostLogin [OF sw assms(5)] show ?thesis by simp
qed

theorem failed_login_uniform_witness:
  "(case handle (\<lambda>s p. s @ p) ''ab'' (PostRegister ''alice'' ''pw'') None init_app of
      (_, _, st1) \<Rightarrow>
        fst (handle (\<lambda>s p. s @ p) ''cd'' (PostLogin ''alice'' ''px'') None st1) = Status 401 \<and>
        fst (handle (\<lambda>s p. s @ p) ''cd'' (PostLogin ''bob'' ''pw'') None st1) = Status 401)"
proof -
  obtain r1 c1 st1 where h1: "handle (\<lambda>s p. s @ p) ''ab'' (PostRegister ''alice'' ''pw'') None init_app = (r1, c1, st1)"
    by (metis prod_cases3)
  have re: "reach (\<lambda>s p. s @ p) st1" using reach.init h1 by (rule reach.step)
  have us: "users (db st1) = [\<lparr>uid = 0, username = Some ''alice'', googleId = None, password = None,
                               salt = Some ''ab'', hash = Some ''abpw''\<rparr>]"
    using h1 by (auto simp add: run_simps)
  have a: "\<forall>u. local_verify (\<lambda>s p. s @ p) (db st1) ''alice'' ''px'' \<noteq> AuthSuccess u"
    and b: "\<forall>u. local_verify (\<lambda>s p. s @ p) (db st1) ''bob'' ''pw'' \<noteq> AuthSuccess u"
    using us by (simp_all add: local_verify_def pl_authenticate_def authenticate_user_def
        find_by_username_def find_one_def)
  obtain ra ca sta where ha: "handle (\<lambda>s p. s @ p) ''cd'' (PostLogin ''alice'' ''px'') None st1 = (ra, ca, sta)"
    by (metis prod_cases3)
  obtain rb cb stb where hb: "handle (\<lambda>s p. s @ p) ''cd'' (PostLogin ''bob'' ''pw'') None st1 = (rb, cb, stb)"
    by (metis prod_cases3)
  have "ra = Status 401" using failed_login_uniform [OF re _ _ a ha] by simp
  moreover have "rb = Status 401" using failed_login_uniform [OF re _ _ b hb] by simp
  ultimately show ?thesis unfolding h1 ha hb prod.case by simp
qed

text \<open>
  C15. Registering a username that is already taken fails with
  \<open>UserExistsError\<close> (the spec's DuplicateUsername): POST /register redirects
  back to /register, no second document is stored, the cookie is unchanged,
  and the error and the submitted password are logged.
\<close>

theorem duplicate_username_refused:
  assumes "reach kdf st" and "u \<in> set (users (db st))" and "username u = Some n" and "n \<noteq> []"
    and "handle kdf s (PostRegister n pw) c st = (r, c', st')"
  shows "r = Redirect ''/register'' \<and> users (db st') = users (db st) \<and> c' = c \<and>
         console st' = console st @ [LogError UserExistsError, LogText pw]"
proof -
  have wf: "sess_wf (store st)" using reach_app_wf [OF assms(1)] by (simp add: app_wf_def)
  have "find_by_username n (db st) \<noteq> None" using assms(2,3) by (auto simp: find_by_username_None)
  with assms(4) have reg: "register kdf s n pw (db st) = (Inl UserExistsError, (db st)\<lparr>next_oid := Suc (next_oid (db st))\<rparr>)"
    by (simp add: register_eq Let_def)
  from assms(5) wf reg show ?thesis by (auto simp: route_eqs)
qed

theorem duplicate_username_refused_witness:
  "(case handle (\<lambda>s p. s @ p) ''ab'' (PostRegister ''alice'' ''pw123'') None init_app of
      (_, _, st1) \<Rightarrow>
        (case handle (\<lambda>s p. s @ p) ''cd'' (PostRegister ''alice'' ''anything'') None st1 of
           (r, _, st2) \<Rightarrow> r = Redirect ''/register'' \<and> length (users (db st2)) = 1))"
proof -
  obtain r1 c1 st1 where h1: "handle (\<lambda>s p. s @ p) ''ab'' (PostRegister ''alice'' ''pw123'') None init_app = (r1, c1, st1)"
    by (metis prod_cases3)
  obtain r c' st2 where h2: "handle (\<lambda>s p. s @ p) ''cd'' (PostRegister ''alice'' ''anything'') None st1 = (r, c', st2)"
    by (metis prod_cases3)
  have re: "reach (\<lambda>s p. s @ p) st1" using reach.init h1 by (rule reach.step)
  have us: "users (db st1) = [\<lparr>uid = 0, username = Some ''alice'', googleId = None, password = None,
                               salt = Some ''ab'', hash = Some ''abpw123''\<rparr>]"
    using h1 by (auto simp add: run_simps)
  then have "hd (users (db st1)) \<in> set (users (db st1))" "username (hd (users (db st1))) = Some ''alice''"
    by simp_all
  from duplicate_username_refused [OF re this _ h2] us show ?thesis unfolding h1 h2 prod.case by simp
qed

text \<open>
  C19. Federated login grants access. In every reachable state, when the
  Google callback redirects to /secrets, a following GET /secrets with the
  cookie it returned renders the secrets page.
\<close>

theorem google_login_grants_secrets:
  assumes "reach kdf st" and "handle kdf s (GetAuthGoogleSecrets (GProfile g)) c st = (r, c', st')"
    and "r = Redirect ''/secrets''"
  shows "fst (handle kdf s' GetSecrets c' st') = Render ''secrets.ejs''"
proof -
  have "sess_wf (store st')" using reach_app_wf [OF reach.step [OF assms(1,2)]] by (simp add: app_wf_def)
  moreover have "session_user (store st') c' \<noteq> None"
    using handle_google_profile(2) [OF reach_sess_wf [OF assms(1)] assms(2)] assms(3)
    by (auto split: sum.splits)
  ultimately show ?thesis by (simp add: route_eqs)
qed

theorem google_login_grants_secrets_witness:
  "(case handle (\<lambda>s p. s @ p) ''ab'' (GetAuthGoogleSecrets (GProfile ''g-42'')) None init_app of
      (r, c', st') \<Rightarrow> r = Redirect ''/secrets'' \<and>
         fst (handle (\<lambda>s p. s @ p) ''cd'' GetSecrets c' st') = Render ''secrets.ejs'')"
proof -
  obtain r c' st' where h: "handle (\<lambda>s p. s @ p) ''ab'' (GetAuthGoogleSecrets (GProfile ''g-42'')) None init_app = (r, c', st')"
    by (metis prod_cases3)
  have r: "r = Redirect ''/secrets''" using h by (auto simp add: run_simps)
  from google_login_grants_secrets [OF reach.init h r] r show ?thesis unfolding h prod.case by simp
qed



text \<open>
  C21. The user store never holds more than two users. Every document
  lacks one of the two uniquely indexed fields (a local account has no
  \<open>googleId\<close>, a Google account no \<open>username\<close>), and each index admits one
  missing value. So in every reachable state there is at most one local and
  at most one Google account: two in all, whatever the requests. The
  witness reaches the bound.
\<close>

theorem at_most_two_users:
  assumes "reach kdf st"
  shows "length (users (db st)) \<le> 2"
proof -
  from assms have "key_missing (db st)"
  proof (induction rule: reach.induct)
    case init
    show ?case by (simp add: init_app_def key_missing_init)
  next
    case (step st s rq c r c' st')
    then show ?case by (blast intro: handle_key_missing)
  qed
  moreover have "db_wf (db st)" using reach_app_wf [OF assms] by (simp add: app_wf_def)
  ultimately show ?thesis by (intro key_missing_length)
qed

theorem at_most_two_users_witness:
  "(case handle (\<lambda>s p. s @ p) ''ab'' (PostRegister ''alice'' ''pw'') None init_app of
      (_, _, st1) \<Rightarrow>
        (case handle (\<lambda>s p. s @ p) ''cd'' (GetAuthGoogleSecrets (GProfile ''g-1'')) None st1 of
           (_, _, st2) \<Rightarrow> length (users (db st2)) = 2 \<and> length (users (db st2)) \<le> 2))"
proof -
  obtain r1 c1 st1 where h1: "handle (\<lambda>s p. s @ p) ''ab'' (PostRegister ''alice'' ''pw'') None init_app = (r1, c1, st1)"
    by (metis prod_cases3)
  obtain r2 c2 st2 where h2: "handle (\<lambda>s p. s @ p) ''cd'' (GetAuthGoogleSecrets (GProfile ''g-1'')) None st1 = (r2, c2, st2)"
    by (metis prod_cases3)
  have re: "reach (\<lambda>s p. s @ p) st2" using reach.step [OF reach.step [OF reach.init h1] h2] .
  have "length (users (db st2)) = 2" using h1 h2 by (auto simp add: run_simps)
  with at_most_two_users [OF re] show ?thesis unfolding h1 h2 prod.case by simp
qed

text \<open>
  C22. A Google provider id containing \<open>$\<close> can log in at most once.
  mongoose-findorcreate drops from the new document every condition whose
  JSON text contains \<open>$\<close>, so the document for such an id is created
  without \<open>googleId\<close>. The id is then never found. After the first callback
  for it, whether that one succeeded or not, every further callback for the
  same id answers 500 and stores nothing: its new document, with no
  \<open>googleId\<close> and no \<open>username\<close>, collides on a \<open>null\<close> index entry.
\<close>

theorem dollar_id_second_login_fails:
  assumes "reach kdf st" and "CHR ''$'' \<in> set g" and "find_by_googleId g (db st) = None"
    and "handle kdf s (GetAuthGoogleSecrets (GProfile g)) c1 st = (r1, c1', st1)"
    and "handle kdf s2 (GetAuthGoogleSecrets (GProfile g)) c2 st1 = (r2, c2', st2)"
  shows "r2 = Status 500 \<and> users (db st2) = users (db st1)"
proof -
  have wf: "db_wf (db st)" and sw: "sess_wf (store st)"
    using reach_app_wf [OF assms(1)] by (simp_all add: app_wf_def)
  have sw1: "sess_wf (store st1)" using reach_app_wf [OF reach.step [OF assms(1,4)]] by (simp add: app_wf_def)
  obtain res d where fc: "find_or_create g (db st) = (res, d)" by fastforce
  have d: "db st1 = d" using handle_google_profile(1) [OF sw assms(4)] fc by simp
  from find_or_create_dollar [OF wf assms(2,3) fc] obtain v where
    "find_by_googleId g d = None" "v \<in> set (users d)" "googleId v = None \<or> username v = None" by blast
  from find_or_create_dollar_fails [OF assms(2) this] d
  have "find_or_create g (db st1) = (Inl DuplicateKey, (db st1)\<lparr>next_oid := Suc (next_oid (db st1))\<rparr>)"
    by simp
  with handle_google_profile [OF sw1 assms(5)] show ?thesis by simp
qed

theorem dollar_id_second_login_fails_witness:
  "(case handle (\<lambda>s p. s @ p) ''ab'' (GetAuthGoogleSecrets (GProfile ''g$1'')) None init_app of
      (r1, _, st1) \<Rightarrow>
        (case handle (\<lambda>s p. s @ p) ''cd'' (GetAuthGoogleSecrets (GProfile ''g$1'')) None st1 of
           (r2, _, st2) \<Rightarrow> r1 = Redirect ''/secrets'' \<and> r2 = Status 500))"
proof -
  obtain r1 c1 st1 where h1: "handle (\<lambda>s p. s @ p) ''ab'' (GetAuthGoogleSecrets (GProfile ''g$1'')) None init_app = (r1, c1, st1)"
    by (metis prod_cases3)
  obtain r2 c2 st2 where h2: "handle (\<lambda>s p. s @ p) ''cd'' (GetAuthGoogleSecrets (GProfile ''g$1'')) None st1 = (r2, c2, st2)"
    by (metis prod_cases3)
  have r1: "r1 = Redirect ''/secrets''" using h1 by (auto simp add: run_simps)
  have "CHR ''$'' \<in> set ''g$1''" "find_by_googleId ''g$1'' (db init_app) = None"
    by (simp_all add: init_app_def init_db_def find_by_googleId_def find_one_def)
  from dollar_id_second_login_fails [OF reach.init this h1 h2] r1 show ?thesis
    unfolding h1 h2 prod.case by simp
qed

end
